theory Spec2Isabelle
  imports Main "HOL-Library.Multiset"
begin

section \<open>Strings and JavaScript values\<close>

text \<open>
  Strings are \<open>char list\<close>, one \<open>char\<close> per code unit of the source's string; only ASCII
  characters are given a meaning by the functions on strings below. A JavaScript value that
  may be \<open>undefined\<close> or \<open>null\<close> is an \<open>option\<close>. A string is falsy exactly when it is
  empty; \<open>undefined\<close> and \<open>null\<close> are falsy.
\<close>

definition truthy :: "string option \<Rightarrow> bool" where
  "truthy v = (case v of None \<Rightarrow> False | Some s \<Rightarrow> s \<noteq> [])"

text \<open>A template literal prints a non-negative integer in decimal.\<close>

definition digit_char :: "nat \<Rightarrow> char" where
  "digit_char d = ''0123456789'' ! d"

fun show_nat :: "nat \<Rightarrow> string" where
  "show_nat n = (if n < 10 then [digit_char n] else show_nat (n div 10) @ [digit_char (n mod 10)])"

declare show_nat.simps [simp del]

text \<open>\<open>s.split(c)\<close> for a one-character separator: always at least one part.\<close>

fun split_on :: "char \<Rightarrow> string \<Rightarrow> string list" where
  "split_on c [] = [[]]"
| "split_on c (x # xs) =
     (if x = c then [] # split_on c xs
      else (case split_on c xs of [] \<Rightarrow> [[x]] | p # ps \<Rightarrow> (x # p) # ps))"

section \<open>ProcessInferenceService: the heuristic flow\<close>

record ProcessNode =
  pn_id :: string
  pn_label :: string
  pn_type :: string
  pn_files :: "string list"
  pn_description :: "string option"

record ProcessEdge =
  pe_source :: string
  pe_target :: string
  pe_label :: "string option"

record ProcessGraphData =
  pg_nodes :: "ProcessNode list"
  pg_edges :: "ProcessEdge list"

text \<open>
  \<open>vscode.workspace.asRelativePath(fp).split('/').pop() || 'File'\<close>: the last part of the
  relative path, or \<open>File\<close> when that part is empty. \<open>asRelativePath\<close> belongs to the
  editor and is a parameter.
\<close>

definition step_name :: "(string \<Rightarrow> string) \<Rightarrow> string \<Rightarrow> string" where
  "step_name asRelativePath fp =
     (let p = last (split_on CHR ''/'' (asRelativePath fp)) in if p = [] then ''File'' else p)"

text \<open>
  The body of \<open>filePaths.slice(0, 5).forEach((fp, index) => ...)\<close>. The loop state is the
  node array, the edge array and \<open>previousId\<close>.
\<close>

fun heuristic_steps ::
  "(string \<Rightarrow> string) \<Rightarrow> string list \<Rightarrow> nat \<Rightarrow>
   ProcessNode list \<times> ProcessEdge list \<times> string \<Rightarrow> ProcessNode list \<times> ProcessEdge list \<times> string"
where
  "heuristic_steps asRelativePath [] index acc = acc"
| "heuristic_steps asRelativePath (fp # fps) index (nodes, edges, previousId) =
     (let name = step_name asRelativePath fp;
          i = ''step_'' @ show_nat index
      in heuristic_steps asRelativePath fps (index + 1)
           (nodes @ [\<lparr>pn_id = i, pn_label = ''Execute '' @ name, pn_type = ''process'',
                      pn_files = [fp], pn_description = Some ''Process Logic Step''\<rparr>],
            edges @ [\<lparr>pe_source = previousId, pe_target = i,
                      pe_label = Some (if index = 0 then ''init'' else ''next'')\<rparr>],
            i))"

definition generateHeuristicFlow ::
  "(string \<Rightarrow> string) \<Rightarrow> string list \<Rightarrow> string \<Rightarrow> ProcessGraphData" where
  "generateHeuristicFlow asRelativePath filePaths label =
     (case heuristic_steps asRelativePath (take 5 filePaths) 0
             ([\<lparr>pn_id = ''start'', pn_label = ''Start '' @ label, pn_type = ''start'',
                pn_files = [], pn_description = Some ''Process Initiation''\<rparr>],
              [], ''start'')
      of (nodes, edges, previousId) \<Rightarrow>
        \<lparr>pg_nodes = nodes @ [\<lparr>pn_id = ''end'', pn_label = ''End Process'', pn_type = ''end'',
                               pn_files = [], pn_description = Some ''Completion''\<rparr>],
         pg_edges = edges @ [\<lparr>pe_source = previousId, pe_target = ''end'',
                               pe_label = Some ''finish''\<rparr>]\<rparr>)"

text \<open>The ids of the step nodes made for \<open>n\<close> files, counting from \<open>index\<close>.\<close>

definition step_ids :: "nat \<Rightarrow> nat \<Rightarrow> string list" where
  "step_ids index n = map (\<lambda>i. ''step_'' @ show_nat i) [index..<index + n]"

section \<open>React Flow payloads\<close>

text \<open>
  The node and edge objects sent to the view. \<open>style\<close> and \<open>animated\<close> are constant
  presentation attributes and are left out; a missing property is \<open>None\<close>.
\<close>

record FlowNode =
  n_id :: string
  n_type :: "string option"
  n_parentNode :: "string option"
  n_extent :: "string option"
  n_position :: "nat \<times> nat"
  d_label :: "string option"
  d_type :: "string option"
  d_detail :: "string option"
  d_kind :: "string option"
  d_description :: "string option"
  d_files :: "string list option"
  d_location :: "(string \<times> nat) option"

record FlowEdge =
  e_id :: string
  e_source :: string
  e_target :: string
  e_label :: "string option"
  e_type :: "string option"
  e_calls :: "string list option"

record FlowGraph =
  g_nodes :: "FlowNode list"
  g_edges :: "FlowEdge list"

text \<open>\<open>GraphService.convertProcessToReactFlow\<close>; \<open>n.type || 'process'\<close> replaces an empty type.\<close>

definition convert_node :: "nat \<Rightarrow> ProcessNode \<Rightarrow> FlowNode" where
  "convert_node i n =
     (let t = (if pn_type n = [] then ''process'' else pn_type n) in
      \<lparr>n_id = pn_id n, n_type = Some t, n_parentNode = None, n_extent = None,
       n_position = (0, i * 150), d_label = Some (pn_label n), d_type = Some t,
       d_detail = None, d_kind = None, d_description = pn_description n,
       d_files = Some (pn_files n), d_location = None\<rparr>)"

definition convert_edge :: "ProcessEdge \<Rightarrow> FlowEdge" where
  "convert_edge e =
     \<lparr>e_id = ''e-'' @ pe_source e @ ''-'' @ pe_target e, e_source = pe_source e,
      e_target = pe_target e, e_label = pe_label e, e_type = Some ''smoothstep'',
      e_calls = None\<rparr>"

definition convertProcessToReactFlow :: "ProcessGraphData \<Rightarrow> FlowGraph" where
  "convertProcessToReactFlow processData =
     \<lparr>g_nodes = map (\<lambda>(i, n). convert_node i n) (enumerate 0 (pg_nodes processData)),
      g_edges = map convert_edge (pg_edges processData)\<rparr>"

section \<open>The drill-down handler of the extension host\<close>

text \<open>
  What \<open>CallGraphPanel.onMessage\<close> does with a \<open>drillDown\<close> message. \<open>ComponentView\<close>
  and \<open>FallbackComponentView\<close> both stand for loading the symbols of the files and posting
  the flattened graph of \<open>generateGraph\<close>, the first for a process node, the second as the
  last resort for a system node; \<open>ProcessFlowView\<close> and \<open>HeuristicFlowView\<close> carry the flow
  that is posted.
\<close>

datatype DrillOutcome =
    NotHandled
  | ComponentView
  | ProcessFlowView FlowGraph
  | HeuristicFlowView FlowGraph
  | FallbackComponentView

text \<open>
  \<open>generateSubsystemFlow\<close> asks the inference collaborator; it is a parameter that returns
  the flow (or \<open>null\<close>) together with the \<open>filePaths\<close> array as the call leaves it (the
  call sorts that array in place when it gets as far as building its cache key).
\<close>

definition onMessage_drillDown ::
  "(string \<Rightarrow> string) \<Rightarrow> (string list \<Rightarrow> ProcessGraphData option \<times> string list) \<Rightarrow>
   string list \<Rightarrow> string option \<Rightarrow> string \<Rightarrow> DrillOutcome" where
  "onMessage_drillDown asRelativePath generateSubsystemFlow filePaths label nodeType =
     (if filePaths = [] then NotHandled
      else if nodeType = ''process'' then ComponentView
      else (case generateSubsystemFlow filePaths of (subsystemData, filePaths') \<Rightarrow>
        (if (case subsystemData of None \<Rightarrow> False | Some d \<Rightarrow> length (pg_nodes d) > 1)
         then ProcessFlowView (convertProcessToReactFlow (the subsystemData))
         else
           (let heuristicData = generateHeuristicFlow asRelativePath filePaths'
                                  (if truthy label then the label else ''Process'')
            in if length (pg_nodes heuristicData) > 0
               then HeuristicFlowView (convertProcessToReactFlow heuristicData)
               else FallbackComponentView))))"

section \<open>The webview: compound layout\<close>

text \<open>
  \<open>getLayoutedElements\<close>, step 1: the set \<open>visibleNodes\<close> of ids. A node without a
  \<open>parentNode\<close> is added; any other node is added when its direct parent is in
  \<open>expandedIds\<close>.
\<close>

definition node_shown :: "string set \<Rightarrow> FlowNode \<Rightarrow> bool" where
  "node_shown expandedIds n =
     (if \<not> truthy (n_parentNode n) then True else the (n_parentNode n) \<in> expandedIds)"

definition visibleNodes :: "FlowNode list \<Rightarrow> string set \<Rightarrow> string set" where
  "visibleNodes nodes expandedIds = set (map n_id (filter (node_shown expandedIds) nodes))"

text \<open>
  Steps 2 and 3: the compound graph that is handed to dagre. Every node whose id is in
  \<open>visibleNodes\<close> is added, and when its \<open>parentNode\<close> is in \<open>visibleNodes\<close> too it is made
  a child of that parent (\<open>setParent\<close>); \<open>dagreParents\<close> are the ids that get a child this
  way. An edge is added when both its ends are in \<open>visibleNodes\<close>.
\<close>

definition dagreParents :: "FlowNode list \<Rightarrow> string set \<Rightarrow> string set" where
  "dagreParents nodes expandedIds =
     set (map (\<lambda>n. the (n_parentNode n))
            (filter (\<lambda>n. n_id n \<in> visibleNodes nodes expandedIds \<and> truthy (n_parentNode n) \<and>
                          the (n_parentNode n) \<in> visibleNodes nodes expandedIds) nodes))"

definition dagreEdges :: "FlowNode list \<Rightarrow> FlowEdge list \<Rightarrow> string set \<Rightarrow> FlowEdge list" where
  "dagreEdges nodes edges expandedIds =
     filter (\<lambda>e. e_source e \<in> visibleNodes nodes expandedIds \<and>
                 e_target e \<in> visibleNodes nodes expandedIds) edges"

text \<open>
  \<open>dagre.layout(dagreGraph)\<close> belongs to the layout library. It cannot rank a compound
  graph in which an edge ends at a node that has children (an expanded group with a visible
  child): it throws a \<open>TypeError\<close>. Otherwise it returns.
\<close>

definition dagre_layout_throws :: "FlowNode list \<Rightarrow> FlowEdge list \<Rightarrow> string set \<Rightarrow> bool" where
  "dagre_layout_throws nodes edges expandedIds =
     list_ex (\<lambda>e. e_source e \<in> dagreParents nodes expandedIds \<or>
                  e_target e \<in> dagreParents nodes expandedIds)
       (dagreEdges nodes edges expandedIds)"

text \<open>
  The nodes returned by \<open>getLayoutedElements\<close>. Coordinates and sizes come from the dagre
  library and are not modelled; dagre knows every id that was added, which is every id in
  \<open>visibleNodes\<close>. A node outside \<open>visibleNodes\<close> is returned with \<open>hidden: true\<close>, any
  other with \<open>hidden: false\<close> and \<open>data.isExpanded\<close> set. The source writes these layout
  attributes into the node objects it was given; nothing modelled here reads them back, so
  they are kept beside the node (\<open>ln_hidden\<close>, \<open>ln_isExpanded\<close>) and the raw nodes stay as
  they arrived. The edges are returned unchanged. When \<open>dagre.layout\<close> throws, the
  exception leaves \<open>getLayoutedElements\<close> and nothing is returned (\<open>None\<close>).
\<close>

record LayoutedNode =
  ln_node :: FlowNode
  ln_hidden :: bool
  ln_isExpanded :: "bool option"

definition layout_node :: "FlowNode list \<Rightarrow> string set \<Rightarrow> FlowNode \<Rightarrow> LayoutedNode" where
  "layout_node nodes expandedIds node =
     (if n_id node \<notin> visibleNodes nodes expandedIds
      then \<lparr>ln_node = node, ln_hidden = True, ln_isExpanded = None\<rparr>
      else \<lparr>ln_node = node, ln_hidden = False, ln_isExpanded = Some (n_id node \<in> expandedIds)\<rparr>)"

definition getLayoutedElements ::
  "FlowNode list \<Rightarrow> FlowEdge list \<Rightarrow> string set \<Rightarrow> (LayoutedNode list \<times> FlowEdge list) option" where
  "getLayoutedElements nodes edges expandedIds =
     (if dagre_layout_throws nodes edges expandedIds then None
      else Some (map (layout_node nodes expandedIds) nodes, edges))"

text \<open>
  For comparison only, the reading of the specification in which the parent chain is walked:
  the ancestors of an id, found by following \<open>parentNode\<close> (at most once per node of the
  graph), must all be expanded.
\<close>

fun spec_ancestors :: "nat \<Rightarrow> FlowNode list \<Rightarrow> string \<Rightarrow> string list" where
  "spec_ancestors 0 nodes i = []"
| "spec_ancestors (Suc fuel) nodes i =
     (case find (\<lambda>n. n_id n = i) nodes of
        None \<Rightarrow> []
      | Some n \<Rightarrow> (if truthy (n_parentNode n)
                   then the (n_parentNode n) # spec_ancestors fuel nodes (the (n_parentNode n))
                   else []))"

definition spec_reachable :: "FlowNode list \<Rightarrow> string set \<Rightarrow> string \<Rightarrow> bool" where
  "spec_reachable nodes expandedIds i =
     list_all (\<lambda>a. a \<in> expandedIds) (spec_ancestors (length nodes) nodes i)"

text \<open>A bare node with an id and a parent, for examples.\<close>

definition plain_node :: "string \<Rightarrow> string option \<Rightarrow> string option \<Rightarrow> FlowNode" where
  "plain_node i t parent =
     \<lparr>n_id = i, n_type = t, n_parentNode = parent, n_extent = None, n_position = (0, 0),
      d_label = Some i, d_type = t, d_detail = None, d_kind = None, d_description = None,
      d_files = None, d_location = None\<rparr>"

definition chain3 :: "FlowNode list" where
  "chain3 = [plain_node ''root'' (Some ''group'') None,
             plain_node ''group'' (Some ''group'') (Some ''root''),
             plain_node ''leaf'' (Some ''component'') (Some ''group'')]"

section \<open>The webview: drill-down state\<close>

text \<open>\<open>toLowerCase\<close> on the ASCII letters.\<close>

definition lower_char :: "char \<Rightarrow> char" where
  "lower_char c = (let k = (of_char c :: nat) in if 65 \<le> k \<and> k \<le> 90 then char_of (k + 32) else c)"

definition toLowerCase :: "string \<Rightarrow> string" where
  "toLowerCase s = map lower_char s"

definition knownTypes :: "string list" where
  "knownTypes = [''group'', ''component'', ''system'', ''process'', ''decision'', ''start'', ''end'']"

text \<open>The normalisation of an incoming node in \<open>handleMessage\<close>.\<close>

definition safe_node :: "FlowNode \<Rightarrow> FlowNode" where
  "safe_node n =
     (let t = toLowerCase (if truthy (n_type n) then the (n_type n) else ''process'');
          t' = (if t \<in> set knownTypes then t else ''process'')
      in n\<lparr>n_type := Some t', d_type := Some t'\<rparr>)"

record ViewFrame =
  f_nodes :: "FlowNode list"
  f_edges :: "FlowEdge list"
  f_label :: "string option"

datatype HostMessage =
    DrillDown "string list" "string option" "string option" string
  | JumpTo "(string \<times> nat) option"

text \<open>
  The state of \<open>CallGraphContent\<close> that the drill-down protocol reads and writes.
  \<open>expandedIdsRef\<close> also stands for the React state \<open>expandedIds\<close>: the two are always
  assigned together. \<open>flowNodes\<close> and \<open>flowEdges\<close> are the displayed elements
  (\<open>setNodes\<close>, \<open>setEdges\<close>); \<open>outbox\<close> collects the messages posted to the host.
\<close>

record ViewState =
  rawNodes :: "FlowNode list"
  rawEdges :: "FlowEdge list"
  expandedIdsRef :: "string set"
  viewStack :: "ViewFrame list"
  currentLabel :: "string option"
  activeRequestId :: "string option"
  flowNodes :: "LayoutedNode list"
  flowEdges :: "FlowEdge list"
  isLoading :: bool
  outbox :: "HostMessage list"

text \<open>
  \<open>triggerLayout\<close>: the layout is computed, then \<open>setNodes\<close> and \<open>setEdges\<close> are called.
  When the layout throws, the exception passes through \<open>triggerLayout\<close> before either
  setter is reached (\<open>None\<close>).
\<close>

definition triggerLayout ::
  "FlowNode list \<Rightarrow> FlowEdge list \<Rightarrow> string set \<Rightarrow> ViewState \<Rightarrow> ViewState option" where
  "triggerLayout n e exp st =
     (case getLayoutedElements n e exp of
        None \<Rightarrow> None
      | Some (ln, le) \<Rightarrow> Some (st\<lparr>flowNodes := ln, flowEdges := le\<rparr>))"

datatype Message =
    UpdateGraph "string option" "FlowNode list" "FlowEdge list"
  | CodeResponse
  | OtherCommand

text \<open>The auto-expand logic of \<open>handleMessage\<close>: the value of \<open>nextExpanded\<close>.\<close>

definition nextExpanded :: "FlowNode list \<Rightarrow> string set \<Rightarrow> string set" where
  "nextExpanded safeNodes expanded =
     (let rootNodes = filter (\<lambda>n. \<not> truthy (n_parentNode n)) safeNodes
      in if length rootNodes = 1 \<and> expanded = {}
         then insert (n_id (hd rootNodes)) expanded
         else expanded)"

text \<open>
  The part of \<open>handleMessage\<close> after the filter: the update is applied. No handler catches
  an exception of \<open>triggerLayout\<close>: it ends the listener, and what was assigned before
  (the loading flag, the raw graph, the expanded set) stays assigned, while the displayed
  elements are not replaced.
\<close>

definition applyUpdate :: "FlowNode list \<Rightarrow> FlowEdge list \<Rightarrow> ViewState \<Rightarrow> ViewState" where
  "applyUpdate rNodes rEdges st =
     (let safeNodes = map safe_node rNodes;
          expanded = nextExpanded safeNodes (expandedIdsRef st);
          st' = st\<lparr>isLoading := False, rawNodes := safeNodes, rawEdges := rEdges,
                   expandedIdsRef := expanded\<rparr>
      in case triggerLayout safeNodes rEdges expanded st' of
           None \<Rightarrow> st'
         | Some st'' \<Rightarrow> st'')"

text \<open>
  \<open>handleMessage\<close>. The first argument is the value of \<open>viewStack\<close> that the function's
  closure holds. \<open>activeRequestId\<close> and \<open>expandedIdsRef\<close> are refs and are read from the
  current state. A \<open>codeResponse\<close> only sets the code preview.
\<close>

definition handleMessage :: "ViewFrame list \<Rightarrow> Message \<Rightarrow> ViewState \<Rightarrow> ViewState" where
  "handleMessage closureViewStack message st =
     (case message of
        UpdateGraph requestId rNodes rEdges \<Rightarrow>
          (if truthy (activeRequestId st)
           then (if requestId \<noteq> activeRequestId st then st else applyUpdate rNodes rEdges st)
           else (if length closureViewStack > 0 then st else applyUpdate rNodes rEdges st))
      | CodeResponse \<Rightarrow> st
      | OtherCommand \<Rightarrow> st)"

text \<open>
  The listener is registered by \<open>useEffect(() => {...}, [])\<close>: the effect runs once, after
  the first render, and the \<open>handleMessage\<close> it registers is the one created in that render.
  \<open>viewStack\<close> is a \<open>const\<close> of the render (\<open>useState([])\<close>), so the registered listener
  holds the first render's value, the empty array, for as long as the component is mounted.
\<close>

definition registered_handleMessage :: "Message \<Rightarrow> ViewState \<Rightarrow> ViewState" where
  "registered_handleMessage = handleMessage []"

text \<open>
  \<open>goBack\<close>. An exception of \<open>triggerLayout\<close> ends it before \<open>setViewStack\<close> and
  \<open>setCurrentLabel\<close>.
\<close>

definition goBack :: "ViewState \<Rightarrow> ViewState" where
  "goBack st =
     (if length (viewStack st) = 0 then st
      else (let prev = last (viewStack st);
                st' = st\<lparr>activeRequestId := None, rawNodes := f_nodes prev,
                         rawEdges := f_edges prev\<rparr>
            in case triggerLayout (f_nodes prev) (f_edges prev) {} st' of
                 None \<Rightarrow> st'
               | Some st'' \<Rightarrow>
                   st''\<lparr>viewStack := butlast (viewStack st), currentLabel := f_label prev\<rparr>))"

text \<open>
  \<open>onNodeDoubleClick\<close>; \<open>now\<close> is the value of \<open>Date.now()\<close>, whose decimal print is the
  request id. The callback is rebuilt whenever the state it reads changes. In the group
  toggle an exception of \<open>triggerLayout\<close> leaves the new expanded set assigned.
\<close>

definition onNodeDoubleClick :: "nat \<Rightarrow> FlowNode \<Rightarrow> ViewState \<Rightarrow> ViewState" where
  "onNodeDoubleClick now node st =
     (if n_type node = Some ''system'' \<or> n_type node = Some ''process'' then
        (if d_files node = None \<or> d_files node = Some []
         then st\<lparr>outbox := outbox st @ [JumpTo (d_location node)]\<rparr>
         else (let requestId = show_nat now
               in st\<lparr>viewStack := viewStack st @
                         [\<lparr>f_nodes = rawNodes st, f_edges = rawEdges st, f_label = currentLabel st\<rparr>],
                       currentLabel := d_label node,
                       activeRequestId := Some requestId,
                       outbox := outbox st @
                         [DrillDown (the (d_files node)) (d_label node) (n_type node) requestId],
                       isLoading := True\<rparr>))
      else if n_type node = Some ''group'' then
        (let newExpanded = (if n_id node \<in> expandedIdsRef st
                            then expandedIdsRef st - {n_id node}
                            else insert (n_id node) (expandedIdsRef st));
             st' = st\<lparr>expandedIdsRef := newExpanded\<rparr>
         in case triggerLayout (rawNodes st) (rawEdges st) newExpanded st' of
              None \<Rightarrow> st'
            | Some st'' \<Rightarrow> st'')
      else if d_location node \<noteq> None then
        st\<lparr>outbox := outbox st @ [JumpTo (d_location node)]\<rparr>
      else if d_files node \<noteq> None \<and> d_files node \<noteq> Some [] then
        st\<lparr>outbox := outbox st @ [JumpTo (Some (hd (the (d_files node)), 0))]\<rparr>
      else st)"

text \<open>The component as first rendered.\<close>

definition initialView :: ViewState where
  "initialView =
     \<lparr>rawNodes = [], rawEdges = [], expandedIdsRef = {}, viewStack = [],
      currentLabel = Some ''System Overview'', activeRequestId = None,
      flowNodes = [], flowEdges = [], isLoading = True, outbox = []\<rparr>"

section \<open>Example views\<close>

text \<open>A node that \<open>onNodeDoubleClick\<close> drills into: a system or process node carrying files.\<close>

definition drillable :: "FlowNode \<Rightarrow> bool" where
  "drillable node =
     ((n_type node = Some ''system'' \<or> n_type node = Some ''process'') \<and>
      d_files node \<noteq> None \<and> d_files node \<noteq> Some [])"

definition system_node :: "string \<Rightarrow> string list \<Rightarrow> FlowNode" where
  "system_node i files = (plain_node i (Some ''system'') None)\<lparr>d_files := Some files\<rparr>"

definition process_node :: "string \<Rightarrow> string list \<Rightarrow> FlowNode" where
  "process_node i files = (plain_node i (Some ''process'') None)\<lparr>d_files := Some files\<rparr>"

text \<open>
  A session: the workspace overview arrives as a background update; the user drills into
  system \<open>A\<close> and its process flow arrives; the user drills into process \<open>p\<close> and its
  component graph arrives; the user goes back once.
\<close>

definition overview :: "FlowNode list" where
  "overview = [system_node ''A'' [''/a.ts''], system_node ''B'' [''/b.ts'']]"

definition view0 :: ViewState where
  "view0 = registered_handleMessage (UpdateGraph None overview []) initialView"

definition view1 :: ViewState where
  "view1 = onNodeDoubleClick 1 (system_node ''A'' [''/a.ts'']) view0"

definition view2 :: ViewState where
  "view2 = registered_handleMessage
             (UpdateGraph (Some (show_nat 1)) [process_node ''p'' [''/a.ts'']] []) view1"

definition view3 :: ViewState where
  "view3 = onNodeDoubleClick 2 (process_node ''p'' [''/a.ts'']) view2"

definition view4 :: ViewState where
  "view4 = registered_handleMessage
             (UpdateGraph (Some (show_nat 2)) [plain_node ''c'' (Some ''component'') None] []) view3"

definition deep_state :: ViewState where
  "deep_state = goBack view4"

text \<open>
  Another session: a graph with a group \<open>g\<close> arrives, the user expands \<open>g\<close>, drills into
  system \<open>A\<close>, receives its flow and goes back.
\<close>

definition grouped :: "FlowNode list" where
  "grouped = [plain_node ''g'' (Some ''group'') None,
              plain_node ''c'' (Some ''component'') (Some ''g''),
              system_node ''A'' [''/a.ts'']]"

definition frame0 :: ViewState where
  "frame0 = onNodeDoubleClick 0 (plain_node ''g'' (Some ''group'') None)
              (registered_handleMessage (UpdateGraph None grouped []) initialView)"

definition frame1 :: ViewState where
  "frame1 = registered_handleMessage
              (UpdateGraph (Some (show_nat 1)) [process_node ''p'' [''/a.ts'']] [])
              (onNodeDoubleClick 1 (system_node ''A'' [''/a.ts'']) frame0)"





section \<open>GraphService: input\<close>

text \<open>\<open>vscode.SymbolKind\<close>.\<close>

datatype SymbolKind =
    File | Module | Namespace | Package | Class | Method | Property | Field | Constructor
  | Enum | Interface | Function | Variable | Constant | String | Number | Boolean | Array
  | Object | Key | Null | EnumMember | Struct | Event | Operator | TypeParameter

text \<open>\<open>vscode.SymbolKind[kind]\<close>, the name of an enum member.\<close>

fun SymbolKind_name :: "SymbolKind \<Rightarrow> string" where
  "SymbolKind_name File = ''File''"
| "SymbolKind_name Module = ''Module''"
| "SymbolKind_name Namespace = ''Namespace''"
| "SymbolKind_name Package = ''Package''"
| "SymbolKind_name Class = ''Class''"
| "SymbolKind_name Method = ''Method''"
| "SymbolKind_name Property = ''Property''"
| "SymbolKind_name Field = ''Field''"
| "SymbolKind_name Constructor = ''Constructor''"
| "SymbolKind_name Enum = ''Enum''"
| "SymbolKind_name Interface = ''Interface''"
| "SymbolKind_name Function = ''Function''"
| "SymbolKind_name Variable = ''Variable''"
| "SymbolKind_name Constant = ''Constant''"
| "SymbolKind_name String = ''String''"
| "SymbolKind_name Number = ''Number''"
| "SymbolKind_name Boolean = ''Boolean''"
| "SymbolKind_name Array = ''Array''"
| "SymbolKind_name Object = ''Object''"
| "SymbolKind_name Key = ''Key''"
| "SymbolKind_name Null = ''Null''"
| "SymbolKind_name EnumMember = ''EnumMember''"
| "SymbolKind_name Struct = ''Struct''"
| "SymbolKind_name Event = ''Event''"
| "SymbolKind_name Operator = ''Operator''"
| "SymbolKind_name TypeParameter = ''TypeParameter''"

text \<open>
  \<open>vscode.DocumentSymbol\<close>: name, detail, kind, \<open>range.start.line\<close>,
  \<open>selectionRange.start.line\<close> and children (always an array).
\<close>

datatype DocumentSymbol =
  DocumentSymbol (s_name: string) (s_detail: string) (s_kind: SymbolKind)
    (s_range_line: nat) (s_selection_line: nat) (s_children: "DocumentSymbol list")

text \<open>A document: \<open>document.uri.toString()\<close> and \<open>document.uri.fsPath\<close>.\<close>

record TextDocument =
  uriStr :: string
  fsPath :: string

record AnalyzedFile =
  document :: TextDocument
  symbols :: "DocumentSymbol list"

text \<open>An outgoing call as the call hierarchy reports it: \<open>call.to\<close>.\<close>

record OutgoingCall =
  to_uri :: string
  to_line :: nat
  to_name :: string

section \<open>GraphService: node creation\<close>

text \<open>
  The working state of \<open>generateGraph\<close>: the node array, the four local maps, the reverse
  index \<open>this._nodeIdMap\<close>, the flag \<open>hasChildren\<close> of the file being processed, and for
  the second pass the set \<open>visitedSymbols\<close> and the list of started call lookups.
\<close>

record CallTask =
  t_uri :: string
  t_symbol :: DocumentSymbol
  t_id :: string

record GraphState =
  st_nodes :: "FlowNode list"
  fileMap :: "string \<rightharpoonup> string"
  classMap :: "string \<rightharpoonup> string"
  symbolOwnerMap :: "string \<rightharpoonup> string"
  moduleGroups :: "string \<rightharpoonup> string"
  nodeIdMap :: "string \<rightharpoonup> string"
  hasChildren :: bool
  visitedSymbols :: "string set"
  callsPromises :: "CallTask list"

definition ROOT_ID :: string where
  "ROOT_ID = ''root-system''"

text \<open>\<open>_getNodeId\<close>: the id, and the entry it stores in the reverse index.\<close>

definition nodeId :: "string \<Rightarrow> DocumentSymbol \<Rightarrow> string" where
  "nodeId u symbol = u @ ''::'' @ s_name symbol @ ''::'' @ show_nat (s_range_line symbol)"

definition nodeKey :: "string \<Rightarrow> DocumentSymbol \<Rightarrow> string" where
  "nodeKey u symbol = u @ '':'' @ show_nat (s_selection_line symbol)"

definition getNodeId :: "string \<Rightarrow> DocumentSymbol \<Rightarrow> GraphState \<Rightarrow> GraphState" where
  "getNodeId u symbol st = st\<lparr>nodeIdMap := (nodeIdMap st)(nodeKey u symbol \<mapsto> nodeId u symbol)\<rparr>"

text \<open>\<open>const subId = this._getNodeId(uri, sub); symbolOwnerMap.set(subId, owner)\<close>.\<close>

definition setOwner :: "string \<Rightarrow> string \<Rightarrow> DocumentSymbol \<Rightarrow> GraphState \<Rightarrow> GraphState" where
  "setOwner u owner sub st =
     (let st' = getNodeId u sub st
      in st'\<lparr>symbolOwnerMap := (symbolOwnerMap st')(nodeId u sub \<mapsto> owner)\<rparr>)"

text \<open>The local recursive function \<open>assignOwner\<close>.\<close>

fun assignOwner :: "string \<Rightarrow> string \<Rightarrow> DocumentSymbol list \<Rightarrow> GraphState \<Rightarrow> GraphState"
  and assignOwner_sub :: "string \<Rightarrow> string \<Rightarrow> DocumentSymbol \<Rightarrow> GraphState \<Rightarrow> GraphState"
where
  "assignOwner u owner [] st = st"
| "assignOwner u owner (sub # subItems) st =
     assignOwner u owner subItems (assignOwner_sub u owner sub st)"
| "assignOwner_sub u owner (DocumentSymbol n d k r s ch) st =
     assignOwner u owner ch (setOwner u owner (DocumentSymbol n d k r s ch) st)"

text \<open>The nodes that \<open>processSymbols\<close> pushes.\<close>

definition class_node :: "string \<Rightarrow> string \<Rightarrow> DocumentSymbol \<Rightarrow> FlowNode" where
  "class_node i activeParentId item =
     \<lparr>n_id = i, n_type = Some ''component'', n_parentNode = Some activeParentId,
      n_extent = Some ''parent'', n_position = (0, 0), d_label = Some (s_name item),
      d_type = Some ''component'', d_detail = Some (s_detail item), d_kind = Some ''Class'',
      d_description = None, d_files = None, d_location = None\<rparr>"

definition function_node :: "string \<Rightarrow> string \<Rightarrow> DocumentSymbol \<Rightarrow> FlowNode" where
  "function_node i systemParentId item =
     \<lparr>n_id = i, n_type = Some ''component'', n_parentNode = Some systemParentId,
      n_extent = Some ''parent'', n_position = (0, 0), d_label = Some (s_name item),
      d_type = Some ''component'',
      d_detail = Some (if s_detail item = [] then ''Function'' else s_detail item),
      d_kind = Some (SymbolKind_name (s_kind item)),
      d_description = None, d_files = None, d_location = None\<rparr>"

text \<open>One round of the loop \<open>for (const item of items)\<close> in \<open>processSymbols\<close>.\<close>

definition processSymbol ::
  "bool \<Rightarrow> string \<Rightarrow> string \<Rightarrow> string \<Rightarrow> string \<Rightarrow> DocumentSymbol \<Rightarrow> GraphState \<Rightarrow> GraphState" where
  "processSymbol includeFiles u fileId ownerId systemParentId item st0 =
     (let st = getNodeId u item st0; i = nodeId u item in
      if s_kind item = Class \<or> s_kind item = Interface then
        (let activeParentId = (if includeFiles then ownerId else systemParentId);
             st1 = st\<lparr>hasChildren := True,
                      st_nodes := st_nodes st @ [class_node i activeParentId item],
                      classMap := (classMap st)(u @ ''::'' @ s_name item \<mapsto> i),
                      symbolOwnerMap := (symbolOwnerMap st)(i \<mapsto> i)\<rparr>
         in fold (setOwner u i) (s_children item) st1)
      else if s_kind item = Function \<or> s_kind item = Method \<or> s_kind item = Constant
              \<or> s_kind item = Variable then
        (let isTopLevel = (ownerId = fileId) in
         if isTopLevel \<and> \<not> includeFiles then
           assignOwner u i (s_children item)
             (st\<lparr>st_nodes := st_nodes st @ [function_node i systemParentId item],
                 symbolOwnerMap := (symbolOwnerMap st)(i \<mapsto> i)\<rparr>)
         else
           (let activeParent = (if includeFiles then ownerId else systemParentId)
            in assignOwner u activeParent (s_children item)
                 (st\<lparr>symbolOwnerMap := (symbolOwnerMap st)(i \<mapsto> activeParent)\<rparr>)))
      else st)"

definition processSymbols ::
  "bool \<Rightarrow> string \<Rightarrow> string \<Rightarrow> DocumentSymbol list \<Rightarrow> string \<Rightarrow> string \<Rightarrow> GraphState \<Rightarrow> GraphState" where
  "processSymbols includeFiles u fileId items ownerId systemParentId st =
     fold (processSymbol includeFiles u fileId ownerId systemParentId) items st"

text \<open>\<open>moduleName.replace(/\<bslash>s+/g, '-').toLowerCase()\<close>, on ASCII.\<close>

definition is_space :: "char \<Rightarrow> bool" where
  "is_space c = (of_char c \<in> {9, 10, 11, 12, 13, 32 :: nat})"

function replace_spaces :: "string \<Rightarrow> string" where
  "replace_spaces [] = []"
| "replace_spaces (c # cs) =
     (if is_space c then CHR ''-'' # replace_spaces (dropWhile is_space cs)
      else c # replace_spaces cs)"
  by pat_completeness auto
termination
  by (relation "measure length") (auto simp: length_dropWhile_le less_Suc_eq_le)

definition groupId_of :: "string \<Rightarrow> string" where
  "groupId_of moduleName = ''mod-'' @ toLowerCase (replace_spaces moduleName)"

definition group_node :: "string \<Rightarrow> string \<Rightarrow> FlowNode" where
  "group_node i label =
     \<lparr>n_id = i, n_type = Some ''group'', n_parentNode = None, n_extent = None,
      n_position = (0, 0), d_label = Some label, d_type = Some ''system'', d_detail = None,
      d_kind = None, d_description = None, d_files = None, d_location = None\<rparr>"

definition file_node :: "string \<Rightarrow> string option \<Rightarrow> string \<Rightarrow> FlowNode" where
  "file_node fileId parentId label =
     \<lparr>n_id = fileId, n_type = Some ''group'', n_parentNode = parentId, n_extent = None,
      n_position = (0, 0), d_label = Some label, d_type = Some ''file'', d_detail = None,
      d_kind = None, d_description = None, d_files = None, d_location = None\<rparr>"

text \<open>
  The first part of a round of \<open>for (const file of files)\<close>: the parent of the file. With a
  semantic map that has the path, the module's group node is made on first use.
\<close>

definition resolveParent ::
  "(string \<rightharpoonup> string) option \<Rightarrow> string option \<Rightarrow> string \<Rightarrow> GraphState \<Rightarrow> string option \<times> GraphState" where
  "resolveParent semanticMap virtualRootLabel path st =
     (let parentId = (if truthy virtualRootLabel then Some ROOT_ID else None) in
      case semanticMap of
        None \<Rightarrow> (parentId, st)
      | Some sm \<Rightarrow>
          (case sm path of
             None \<Rightarrow> (parentId, st)
           | Some moduleName \<Rightarrow>
               (let st' = (if moduleGroups st moduleName = None
                           then st\<lparr>st_nodes := st_nodes st @
                                       [group_node (groupId_of moduleName) moduleName],
                                    moduleGroups := (moduleGroups st)
                                       (moduleName \<mapsto> groupId_of moduleName)\<rparr>
                           else st)
                in (moduleGroups st' moduleName, st'))))"

text \<open>
  A round of the first loop. \<open>basename\<close> is \<open>path.basename\<close> of the platform. The file node
  is one object: when it was pushed and the file has no class, the object in the array is
  the one that is turned into a leaf.
\<close>

definition processFile ::
  "(string \<Rightarrow> string) \<Rightarrow> (string \<rightharpoonup> string) option \<Rightarrow> string option \<Rightarrow> bool \<Rightarrow>
   AnalyzedFile \<Rightarrow> GraphState \<Rightarrow> GraphState" where
  "processFile basename semanticMap virtualRootLabel includeFiles file st0 =
     (let u = uriStr (document file); path = fsPath (document file) in
      case resolveParent semanticMap virtualRootLabel path st0 of (parentId, st1) \<Rightarrow>
        (let fileId = ''file-'' @ u;
             fileNode = file_node fileId parentId (basename path);
             position = length (st_nodes st1);
             st2 = st1\<lparr>fileMap := (fileMap st1)(u \<mapsto> fileId),
                       st_nodes := (if includeFiles then st_nodes st1 @ [fileNode]
                                    else st_nodes st1),
                       hasChildren := False\<rparr>;
             st3 = processSymbols includeFiles u fileId (symbols file) fileId
                     (if truthy parentId then the parentId else ROOT_ID) st2
         in if includeFiles \<and> \<not> hasChildren st3
            then st3\<lparr>st_nodes := (st_nodes st3)
                       [position := fileNode\<lparr>n_type := Some ''component'',
                                             d_detail := Some ''Source File''\<rparr>]\<rparr>
            else st3))"

definition initialGraphState :: "string option \<Rightarrow> GraphState" where
  "initialGraphState virtualRootLabel =
     \<lparr>st_nodes = (if truthy virtualRootLabel then [group_node ROOT_ID (the virtualRootLabel)]
                  else []),
      fileMap = Map.empty, classMap = Map.empty, symbolOwnerMap = Map.empty,
      moduleGroups = Map.empty, nodeIdMap = Map.empty, hasChildren = False,
      visitedSymbols = {}, callsPromises = []\<rparr>"

section \<open>GraphService: call edges\<close>

text \<open>The local recursive function \<open>processCalls\<close>: it registers every symbol it meets and
  starts one lookup for each id it has not seen.\<close>

fun processCalls :: "string \<Rightarrow> DocumentSymbol list \<Rightarrow> GraphState \<Rightarrow> GraphState"
  and processCalls_item :: "string \<Rightarrow> DocumentSymbol \<Rightarrow> GraphState \<Rightarrow> GraphState"
where
  "processCalls u [] st = st"
| "processCalls u (item # items) st = processCalls u items (processCalls_item u item st)"
| "processCalls_item u (DocumentSymbol n d k r s ch) st0 =
     (let item = DocumentSymbol n d k r s ch; st = getNodeId u item st0; i = nodeId u item in
      if i \<in> visitedSymbols st then st
      else processCalls u ch
             (st\<lparr>visitedSymbols := insert i (visitedSymbols st),
                 callsPromises := callsPromises st @ [\<lparr>t_uri = u, t_symbol = item, t_id = i\<rparr>]\<rparr>))"

definition collectCalls :: "AnalyzedFile \<Rightarrow> GraphState \<Rightarrow> GraphState" where
  "collectCalls file st =
     (if \<not> truthy (fileMap st (uriStr (document file))) then st
      else processCalls (uriStr (document file)) (symbols file) st)"

text \<open>
  The edge map: a JavaScript \<open>Map\<close> from \<open>sourceId|targetId\<close> to a count and a \<open>Set\<close> of
  call descriptions, both kept in insertion order.
\<close>

record EdgeMeta =
  em_count :: nat
  em_calls :: "string list"

type_synonym EdgeMap = "(string \<times> EdgeMeta) list"

definition add_desc :: "string \<Rightarrow> EdgeMeta \<Rightarrow> EdgeMeta" where
  "add_desc callDesc existing =
     \<lparr>em_count = em_count existing + 1,
      em_calls = (if callDesc \<in> set (em_calls existing) then em_calls existing
                  else em_calls existing @ [callDesc])\<rparr>"

definition count_call :: "string \<Rightarrow> string \<Rightarrow> EdgeMap \<Rightarrow> EdgeMap" where
  "count_call edgeKey callDesc edgeMap =
     (case map_of edgeMap edgeKey of
        Some existing \<Rightarrow>
          map (\<lambda>(k, m). if k = edgeKey then (k, add_desc callDesc m) else (k, m)) edgeMap
      | None \<Rightarrow> edgeMap @ [(edgeKey, \<lparr>em_count = 1, em_calls = [callDesc]\<rparr>)])"

text \<open>The body of \<open>for (const call of outgoing)\<close>.\<close>

definition add_call ::
  "(string \<rightharpoonup> string) \<Rightarrow> (string \<rightharpoonup> string) \<Rightarrow> string \<Rightarrow> string \<Rightarrow> OutgoingCall \<Rightarrow> EdgeMap \<Rightarrow> EdgeMap" where
  "add_call ownerMap idMap sourceOwnerId symbolName call edgeMap =
     (let targetKey = to_uri call @ '':'' @ show_nat (to_line call);
          targetNodeId = idMap targetKey in
      if truthy targetNodeId then
        (let targetOwnerId = ownerMap (the targetNodeId) in
         if truthy targetOwnerId \<and> sourceOwnerId \<noteq> the targetOwnerId then
           count_call (sourceOwnerId @ ''|'' @ the targetOwnerId)
             (symbolName @ '' -> '' @ to_name call) edgeMap
         else edgeMap)
      else edgeMap)"

text \<open>
  \<open>_aggregateOutgoingCalls\<close>. The call hierarchy of the editor is the parameter
  \<open>outgoing\<close>: for a document and a symbol it gives the outgoing calls, or \<open>None\<close> when there
  is no call hierarchy item, no answer, or the lookup throws.
\<close>

definition aggregateOutgoingCalls ::
  "(string \<Rightarrow> DocumentSymbol \<Rightarrow> OutgoingCall list option) \<Rightarrow>
   (string \<rightharpoonup> string) \<Rightarrow> (string \<rightharpoonup> string) \<Rightarrow> CallTask \<Rightarrow> EdgeMap \<Rightarrow> EdgeMap" where
  "aggregateOutgoingCalls outgoing ownerMap idMap task edgeMap =
     (let sourceOwnerId = ownerMap (t_id task) in
      if \<not> truthy sourceOwnerId then edgeMap
      else if s_kind (t_symbol task) \<noteq> Method \<and> s_kind (t_symbol task) \<noteq> Function then edgeMap
      else (case outgoing (t_uri task) (t_symbol task) of
              None \<Rightarrow> edgeMap
            | Some calls \<Rightarrow>
                fold (add_call ownerMap idMap (the sourceOwnerId) (s_name (t_symbol task)))
                  calls edgeMap))"

text \<open>
  \<open>edgeMap.forEach\<close>: the key is split at every \<open>|\<close> and the first two parts are taken as
  source and target. Every key holds a \<open>|\<close>, so there are always two parts.
\<close>

definition edge_of :: "string \<times> EdgeMeta \<Rightarrow> FlowEdge list" where
  "edge_of entry =
     (case split_on CHR ''|'' (fst entry) of
        source # target # _ \<Rightarrow>
          (if source \<noteq> target then
             [\<lparr>e_id = ''e-'' @ source @ ''-'' @ target, e_source = source, e_target = target,
               e_label = (if em_count (snd entry) > 1
                          then Some (show_nat (em_count (snd entry)) @ '' calls'') else None),
               e_type = None, e_calls = Some (em_calls (snd entry))\<rparr>]
           else [])
      | _ \<Rightarrow> [])"

text \<open>
  The state when the synchronous part of \<open>generateGraph\<close> is done: all nodes are made and
  all lookups are started.
\<close>

definition graphState ::
  "(string \<Rightarrow> string) \<Rightarrow> AnalyzedFile list \<Rightarrow> (string \<rightharpoonup> string) option \<Rightarrow> string option \<Rightarrow> bool \<Rightarrow> GraphState" where
  "graphState basename files semanticMap virtualRootLabel includeFiles =
     fold collectCalls files
       (fold (processFile basename semanticMap virtualRootLabel includeFiles) files
          (initialGraphState virtualRootLabel))"

text \<open>
  The lookups run concurrently; each one, once its two answers are there, adds all its calls
  to the edge map in one go. \<open>completion\<close> gives the order in which the started lookups
  reach that point. The owner map is a local of the call and is complete by then. The
  reverse index is the field \<open>this._nodeIdMap\<close> of the service object, which every call of
  \<open>generateGraph\<close> on that object clears and fills in its synchronous part; a lookup reads
  the field when it completes. \<open>indexAt\<close> gives, for each lookup, the content of the field
  at that moment: the index of this call, or, when another call of \<open>generateGraph\<close> has
  started on the same service in the meantime, the index which that call has built.
\<close>

definition aggregateEdges_shared ::
  "(string \<Rightarrow> DocumentSymbol \<Rightarrow> OutgoingCall list option) \<Rightarrow> (CallTask list \<Rightarrow> CallTask list) \<Rightarrow>
   (CallTask \<Rightarrow> (string \<rightharpoonup> string)) \<Rightarrow> GraphState \<Rightarrow> EdgeMap" where
  "aggregateEdges_shared outgoing completion indexAt st =
     fold (\<lambda>task. aggregateOutgoingCalls outgoing (symbolOwnerMap st) (indexAt task) task)
       (completion (callsPromises st)) []"

definition generateGraph_shared ::
  "(string \<Rightarrow> string) \<Rightarrow> (string \<Rightarrow> DocumentSymbol \<Rightarrow> OutgoingCall list option) \<Rightarrow>
   (CallTask list \<Rightarrow> CallTask list) \<Rightarrow> (CallTask \<Rightarrow> (string \<rightharpoonup> string)) \<Rightarrow>
   AnalyzedFile list \<Rightarrow> (string \<rightharpoonup> string) option \<Rightarrow> string option \<Rightarrow> bool \<Rightarrow> FlowGraph" where
  "generateGraph_shared basename outgoing completion indexAt files semanticMap virtualRootLabel
       includeFiles =
     (let st = graphState basename files semanticMap virtualRootLabel includeFiles
      in \<lparr>g_nodes = st_nodes st,
          g_edges = concat (map edge_of (aggregateEdges_shared outgoing completion indexAt st))\<rparr>)"

text \<open>
  A call of \<open>generateGraph\<close> during which no other call starts on the same service: every
  lookup finds the index that this call has built.
\<close>

definition aggregateEdges ::
  "(string \<Rightarrow> DocumentSymbol \<Rightarrow> OutgoingCall list option) \<Rightarrow> (CallTask list \<Rightarrow> CallTask list) \<Rightarrow>
   GraphState \<Rightarrow> EdgeMap" where
  "aggregateEdges outgoing completion st =
     aggregateEdges_shared outgoing completion (\<lambda>task. nodeIdMap st) st"

definition generateGraph ::
  "(string \<Rightarrow> string) \<Rightarrow> (string \<Rightarrow> DocumentSymbol \<Rightarrow> OutgoingCall list option) \<Rightarrow>
   (CallTask list \<Rightarrow> CallTask list) \<Rightarrow>
   AnalyzedFile list \<Rightarrow> (string \<rightharpoonup> string) option \<Rightarrow> string option \<Rightarrow> bool \<Rightarrow> FlowGraph" where
  "generateGraph basename outgoing completion files semanticMap virtualRootLabel includeFiles =
     generateGraph_shared basename outgoing completion
       (\<lambda>task. nodeIdMap (graphState basename files semanticMap virtualRootLabel includeFiles))
       files semanticMap virtualRootLabel includeFiles"

section \<open>Notions used in the statements about the graph\<close>

definition functionlike :: "DocumentSymbol \<Rightarrow> bool" where
  "functionlike item =
     (s_kind item = Function \<or> s_kind item = Method \<or> s_kind item = Constant \<or> s_kind item = Variable)"

definition classlike :: "DocumentSymbol \<Rightarrow> bool" where
  "classlike item = (s_kind item = Class \<or> s_kind item = Interface)"

definition container_of :: "(string \<rightharpoonup> string) option \<Rightarrow> string \<Rightarrow> string" where
  "container_of semanticMap path =
     (case semanticMap of
        None \<Rightarrow> ROOT_ID
      | Some sm \<Rightarrow> (case sm path of None \<Rightarrow> ROOT_ID | Some moduleName \<Rightarrow> groupId_of moduleName))"

definition flat_nodes :: "string \<Rightarrow> string \<Rightarrow> DocumentSymbol \<Rightarrow> FlowNode list" where
  "flat_nodes u systemParentId item =
     (if classlike item then [class_node (nodeId u item) systemParentId item]
      else if functionlike item then [function_node (nodeId u item) systemParentId item]
      else [])"

text \<open>The nodes of a flattened single-file graph: the containers, then one node per symbol.\<close>

definition container_nodes :: "(string \<rightharpoonup> string) option \<Rightarrow> string option \<Rightarrow> string \<Rightarrow> FlowNode list" where
  "container_nodes semanticMap virtualRootLabel path =
     (if truthy virtualRootLabel then [group_node ROOT_ID (the virtualRootLabel)] else []) @
     (case semanticMap of
        None \<Rightarrow> []
      | Some sm \<Rightarrow> (case sm path of None \<Rightarrow> []
                   | Some moduleName \<Rightarrow> [group_node (groupId_of moduleName) moduleName]))"

fun subtree :: "DocumentSymbol \<Rightarrow> DocumentSymbol list" where
  "subtree (DocumentSymbol n d k r s ch) = DocumentSymbol n d k r s ch # concat (map subtree ch)"

text \<open>
  The symbols of a file's top-level list to which \<open>processSymbols\<close> gives an owner: a class
  or interface and its direct children; a function, method, constant or variable and
  everything nested in it.
\<close>

definition owned_symbols :: "DocumentSymbol \<Rightarrow> DocumentSymbol list" where
  "owned_symbols item =
     (if classlike item then item # s_children item
      else if functionlike item then subtree item
      else [])"

definition owners_resolve :: "GraphState \<Rightarrow> bool" where
  "owners_resolve st = (ran (symbolOwnerMap st) \<subseteq> n_id ` set (st_nodes st))"

text \<open>An edge up to the order of its call descriptions.\<close>

definition edge_view ::
  "FlowEdge \<Rightarrow> string \<times> string \<times> string \<times> string option \<times> string option \<times> string set option" where
  "edge_view e = (e_id e, e_source e, e_target e, e_label e, e_type e, map_option set (e_calls e))"

text \<open>The edge map as a finite map from keys to a count and a set of descriptions.\<close>

definition meta_view :: "EdgeMeta \<Rightarrow> nat \<times> string set" where
  "meta_view m = (em_count m, set (em_calls m))"

definition edge_abs :: "EdgeMap \<Rightarrow> (string \<rightharpoonup> nat \<times> string set)" where
  "edge_abs edgeMap = (\<lambda>k. map_option meta_view (map_of edgeMap k))"

definition abs_count :: "string \<times> string \<Rightarrow> (string \<rightharpoonup> nat \<times> string set) \<Rightarrow> (string \<rightharpoonup> nat \<times> string set)" where
  "abs_count kd m =
     m(fst kd \<mapsto> (case m (fst kd) of None \<Rightarrow> (1, {snd kd})
                                     | Some (c, ds) \<Rightarrow> (c + 1, insert (snd kd) ds)))"

text \<open>The calls of a lookup that reach the edge map, as pairs of edge key and description.\<close>

definition call_incs ::
  "(string \<rightharpoonup> string) \<Rightarrow> (string \<rightharpoonup> string) \<Rightarrow> string \<Rightarrow> string \<Rightarrow> OutgoingCall \<Rightarrow> (string \<times> string) list" where
  "call_incs ownerMap idMap sourceOwnerId symbolName call =
     (let targetNodeId = idMap (to_uri call @ '':'' @ show_nat (to_line call)) in
      if truthy targetNodeId \<and> truthy (ownerMap (the targetNodeId)) \<and>
         sourceOwnerId \<noteq> the (ownerMap (the targetNodeId))
      then [(sourceOwnerId @ ''|'' @ the (ownerMap (the targetNodeId)),
             symbolName @ '' -> '' @ to_name call)]
      else [])"

definition task_incs ::
  "(string \<Rightarrow> DocumentSymbol \<Rightarrow> OutgoingCall list option) \<Rightarrow>
   (string \<rightharpoonup> string) \<Rightarrow> (string \<rightharpoonup> string) \<Rightarrow> CallTask \<Rightarrow> (string \<times> string) list" where
  "task_incs outgoing ownerMap idMap task =
     (if \<not> truthy (ownerMap (t_id task)) then []
      else if s_kind (t_symbol task) \<noteq> Method \<and> s_kind (t_symbol task) \<noteq> Function then []
      else (case outgoing (t_uri task) (t_symbol task) of
              None \<Rightarrow> []
            | Some calls \<Rightarrow>
                concat (map (call_incs ownerMap idMap (the (ownerMap (t_id task)))
                               (s_name (t_symbol task))) calls)))"

definition count_inc :: "string \<times> string \<Rightarrow> EdgeMap \<Rightarrow> EdgeMap" where
  "count_inc kd = count_call (fst kd) (snd kd)"

definition entry_view :: "string \<times> EdgeMeta \<Rightarrow> string \<times> nat \<times> string set" where
  "entry_view entry = (fst entry, meta_view (snd entry))"

definition view_edges :: "string \<times> nat \<times> string set \<Rightarrow>
    (string \<times> string \<times> string \<times> string option \<times> string option \<times> string set option) list" where
  "view_edges v =
     (case split_on CHR ''|'' (fst v) of
        source # target # _ \<Rightarrow>
          (if source \<noteq> target then
             [(''e-'' @ source @ ''-'' @ target, source, target,
               (if fst (snd v) > 1 then Some (show_nat (fst (snd v)) @ '' calls'') else None),
               None, Some (snd (snd v)))]
           else [])
      | _ \<Rightarrow> [])"

section \<open>Example inputs\<close>

definition nested_fn :: DocumentSymbol where
  "nested_fn = DocumentSymbol ''f'' [] Function 1 1 []"

definition namespace_file :: AnalyzedFile where
  "namespace_file =
     \<lparr>document = \<lparr>uriStr = ''file:///a.ts'', fsPath = ''/a.ts''\<rparr>,
      symbols = [DocumentSymbol ''N'' [] Namespace 0 0 [nested_fn]]\<rparr>"

definition two_functions :: AnalyzedFile where
  "two_functions =
     \<lparr>document = \<lparr>uriStr = ''file:///b.ts'', fsPath = ''/b.ts''\<rparr>,
      symbols = [DocumentSymbol ''g'' [] Function 0 0 [], DocumentSymbol ''h'' [] Function 4 4 []]\<rparr>"

definition mixed_file :: AnalyzedFile where
  "mixed_file =
     \<lparr>document = \<lparr>uriStr = ''file:///m.ts'', fsPath = ''/m.ts''\<rparr>,
      symbols = [DocumentSymbol ''f'' [] Function 0 0 [], DocumentSymbol ''v'' [] Variable 4 4 [],
                 DocumentSymbol ''K'' [] Constant 5 5 []]\<rparr>"

definition interface_file :: AnalyzedFile where
  "interface_file =
     \<lparr>document = \<lparr>uriStr = ''file:///i.ts'', fsPath = ''/i.ts''\<rparr>,
      symbols = [DocumentSymbol ''I'' [] Interface 0 0 [], DocumentSymbol ''f'' [] Function 4 4 []]\<rparr>"

definition operator_file :: AnalyzedFile where
  "operator_file =
     \<lparr>document = \<lparr>uriStr = ''file:///x.cpp'', fsPath = ''/x.cpp''\<rparr>,
      symbols = [DocumentSymbol ''operator|'' [] Function 1 1 [],
                 DocumentSymbol ''g'' [] Function 5 5 [],
                 DocumentSymbol ''h'' [] Function 9 9 []]\<rparr>"

definition operator_calls :: "string \<Rightarrow> DocumentSymbol \<Rightarrow> OutgoingCall list option" where
  "operator_calls u symbol =
     (if s_name symbol = ''operator|''
      then Some [\<lparr>to_uri = ''file:///x.cpp'', to_line = 5, to_name = ''g''\<rparr>,
                 \<lparr>to_uri = ''file:///x.cpp'', to_line = 9, to_name = ''h''\<rparr>]
      else Some [])"

definition mutual_calls :: "string \<Rightarrow> DocumentSymbol \<Rightarrow> OutgoingCall list option" where
  "mutual_calls u symbol =
     (if s_name symbol = ''g''
      then Some [\<lparr>to_uri = ''file:///b.ts'', to_line = 4, to_name = ''h''\<rparr>]
      else Some [\<lparr>to_uri = ''file:///b.ts'', to_line = 0, to_name = ''g''\<rparr>])"

section \<open>Properties of the heuristic flow\<close>

lemma show_nat_nonempty: "show_nat n \<noteq> []"
  by (subst show_nat.simps) simp

lemma step_ids_Suc: "step_ids index (Suc n) = (''step_'' @ show_nat index) # step_ids (Suc index) n"
  by (simp add: step_ids_def upt_rec)

lemma heuristic_steps_shape:
  "heuristic_steps asRel fps index (nodes, edges, prev) = (nodes', edges', prev') \<Longrightarrow>
     map pn_id nodes' = map pn_id nodes @ step_ids index (length fps) \<and>
     map pn_type nodes' = map pn_type nodes @ replicate (length fps) ''process'' \<and>
     map pn_files nodes' = map pn_files nodes @ map (\<lambda>fp. [fp]) fps \<and>
     map pe_source edges' = map pe_source edges @ butlast (prev # step_ids index (length fps)) \<and>
     map pe_target edges' = map pe_target edges @ step_ids index (length fps) \<and>
     prev' = last (prev # step_ids index (length fps))"
proof (induction fps arbitrary: index nodes edges prev)
  case Nil
  then show ?case by (simp add: step_ids_def)
next
  case (Cons fp fps)
  from Cons.prems show ?case
    by (auto simp: Let_def step_ids_Suc replicate_app_Cons_same dest!: Cons.IH)
qed

lemma digit_char_inj: "a < 10 \<Longrightarrow> b < 10 \<Longrightarrow> digit_char a = digit_char b \<Longrightarrow> a = b"
proof -
  assume "a < 10" "b < 10" "digit_char a = digit_char b"
  moreover have "distinct ''0123456789''" by simp
  ultimately show "a = b"
    unfolding digit_char_def by (simp add: nth_eq_iff_index_eq)
qed

lemma show_nat_inj: "show_nat n = show_nat m \<Longrightarrow> n = m"
proof (induction n arbitrary: m rule: show_nat.induct)
  case (1 n)
  show ?case
  proof (cases "n < 10")
    case small: True
    show ?thesis
    proof (cases "m < 10")
      case True
      with small "1.prems" show ?thesis
        by (simp add: show_nat.simps [of n] show_nat.simps [of m] digit_char_inj)
    next
      case False
      with small "1.prems" show ?thesis
        using show_nat_nonempty [of "m div 10"]
        by (simp add: show_nat.simps [of n] show_nat.simps [of m])
    qed
  next
    case big: False
    show ?thesis
    proof (cases "m < 10")
      case True
      with big "1.prems" show ?thesis
        using show_nat_nonempty [of "n div 10"]
        by (simp add: show_nat.simps [of n] show_nat.simps [of m])
    next
      case False
      with big "1.prems" have eq: "show_nat (n div 10) = show_nat (m div 10)"
        and d: "digit_char (n mod 10) = digit_char (m mod 10)"
        by (simp_all add: show_nat.simps [of n] show_nat.simps [of m])
      from "1.IH" [OF big eq] have "n div 10 = m div 10" .
      moreover from d have "n mod 10 = m mod 10"
        by (intro digit_char_inj) simp_all
      ultimately show ?thesis
        by (metis div_mult_mod_eq)
    qed
  qed
qed

lemma distinct_step_ids: "distinct (step_ids index n)"
  unfolding step_ids_def
  by (simp add: distinct_map inj_on_def show_nat_inj)

lemma start_notin_step_ids: "''start'' \<notin> set (step_ids index n)"
  by (auto simp: step_ids_def)

lemma end_notin_step_ids: "''end'' \<notin> set (step_ids index n)"
  by (auto simp: step_ids_def)

lemma map_pair_zip: "map (\<lambda>e. (f e, g e)) xs = zip (map f xs) (map g xs)"
  by (induction xs) simp_all

lemma zip_drop_last: "zip (a # xs @ [e]) (xs @ [b]) = zip (a # xs) (xs @ [b])"
  by (induction xs arbitrary: a) auto

lemma zip_chain: "zip (butlast (a # xs)) xs @ [(last (a # xs), b)] = zip (a # xs) (xs @ [b])"
  by (induction xs arbitrary: a) auto

text \<open>
  C6. For every file path list and label the heuristic flow has exactly
  \<open>min 5 fileCount + 2\<close> nodes: the start node, one process node for each of the first five
  files (carrying that file), and the end node; the node ids are pairwise different, and the
  edges are exactly the links between consecutive nodes, from \<open>start\<close> through the steps in
  order to \<open>end\<close>.
\<close>

theorem heuristic_flow_linear_chain:
  "length (pg_nodes (generateHeuristicFlow asRel fps label)) = min 5 (length fps) + 2 \<and>
   map pn_id (pg_nodes (generateHeuristicFlow asRel fps label))
     = ''start'' # step_ids 0 (min 5 (length fps)) @ [''end''] \<and>
   map pn_type (pg_nodes (generateHeuristicFlow asRel fps label))
     = ''start'' # replicate (min 5 (length fps)) ''process'' @ [''end''] \<and>
   map pn_files (pg_nodes (generateHeuristicFlow asRel fps label))
     = [] # map (\<lambda>fp. [fp]) (take 5 fps) @ [[]] \<and>
   distinct (map pn_id (pg_nodes (generateHeuristicFlow asRel fps label))) \<and>
   map (\<lambda>e. (pe_source e, pe_target e)) (pg_edges (generateHeuristicFlow asRel fps label))
     = zip (map pn_id (pg_nodes (generateHeuristicFlow asRel fps label)))
           (tl (map pn_id (pg_nodes (generateHeuristicFlow asRel fps label))))"
proof -
  define k where "k = min 5 (length fps)"
  define start where "start = \<lparr>pn_id = ''start'', pn_label = ''Start '' @ label,
    pn_type = ''start'', pn_files = [], pn_description = Some ''Process Initiation''\<rparr>"
  obtain nodes edges prev where
    run: "heuristic_steps asRel (take 5 fps) 0 ([start], [], ''start'') = (nodes, edges, prev)"
    by (metis prod_cases3)
  have len: "length (take 5 fps) = k"
    by (simp add: k_def min.commute)
  from heuristic_steps_shape [OF run, unfolded len]
  have ids: "map pn_id nodes = ''start'' # step_ids 0 k"
    and types: "map pn_type nodes = ''start'' # replicate k ''process''"
    and files: "map pn_files nodes = [] # map (\<lambda>fp. [fp]) (take 5 fps)"
    and srcs: "map pe_source edges = butlast (''start'' # step_ids 0 k)"
    and tgts: "map pe_target edges = step_ids 0 k"
    and prev: "prev = last (''start'' # step_ids 0 k)"
    by (simp_all add: start_def del: butlast.simps last.simps)
  have g: "generateHeuristicFlow asRel fps label =
      \<lparr>pg_nodes = nodes @ [\<lparr>pn_id = ''end'', pn_label = ''End Process'', pn_type = ''end'',
                             pn_files = [], pn_description = Some ''Completion''\<rparr>],
       pg_edges = edges @ [\<lparr>pe_source = prev, pe_target = ''end'',
                             pe_label = Some ''finish''\<rparr>]\<rparr>"
    using run by (simp add: generateHeuristicFlow_def start_def)
  have n: "length nodes = k + 1"
    using arg_cong [OF ids, of length] by (simp add: step_ids_def)
  have pairs: "map (\<lambda>e. (pe_source e, pe_target e)) edges
      = zip (butlast (''start'' # step_ids 0 k)) (step_ids 0 k)"
    using map_pair_zip [of pe_source pe_target edges] by (simp only: srcs tgts)
  have dist: "distinct (''start'' # step_ids 0 k @ [''end''])"
    using distinct_step_ids [of 0 k] start_notin_step_ids [of 0 k] end_notin_step_ids [of 0 k]
    by simp
  have chain: "map (\<lambda>e. (pe_source e, pe_target e)) (pg_edges (generateHeuristicFlow asRel fps label))
      = zip (''start'' # step_ids 0 k) (step_ids 0 k @ [''end''])"
    by (simp add: g pairs prev zip_chain del: butlast.simps last.simps)
  show ?thesis
    unfolding k_def [symmetric]
    using n ids types files dist chain by (simp add: g zip_drop_last)
qed

text \<open>
  C10. The heuristic flow always has at least two nodes, also for an empty file list, so the
  drill-down handler never reaches its final fallback to the component view.
\<close>

theorem heuristic_fallback_unreachable:
  "2 \<le> length (pg_nodes (generateHeuristicFlow asRel fps label)) \<and>
   2 \<le> length (pg_nodes (generateHeuristicFlow asRel [] label)) \<and>
   onMessage_drillDown asRel subsystemFlow filePaths lbl nodeType \<noteq> FallbackComponentView"
proof -
  have two: "2 \<le> length (pg_nodes (generateHeuristicFlow asRel xs l))" for xs l
  proof -
    obtain nodes edges prev where
      run: "heuristic_steps asRel (take 5 xs) 0
              ([\<lparr>pn_id = ''start'', pn_label = ''Start '' @ l, pn_type = ''start'',
                 pn_files = [], pn_description = Some ''Process Initiation''\<rparr>], [], ''start'')
            = (nodes, edges, prev)"
      by (metis prod_cases3)
    from heuristic_steps_shape [OF run] have "map pn_id nodes \<noteq> []"
      by simp
    then have "1 \<le> length nodes"
      by (cases nodes) simp_all
    then show ?thesis
      using run by (simp add: generateHeuristicFlow_def)
  qed
  have nonempty: "pg_nodes (generateHeuristicFlow asRel xs l) \<noteq> []" for xs l
    using two [of xs l] by auto
  have "onMessage_drillDown asRel subsystemFlow filePaths lbl nodeType \<noteq> FallbackComponentView"
    by (simp add: onMessage_drillDown_def Let_def nonempty split: prod.splits)
  with two show ?thesis by blast
qed

section \<open>Properties of the drill-down protocol\<close>

lemma drill_sets_token:
  "drillable node \<Longrightarrow> activeRequestId (onNodeDoubleClick now node st) = Some (show_nat now)"
  by (auto simp: drillable_def onNodeDoubleClick_def Let_def)

lemma drill_pushes_frame:
  "drillable node \<Longrightarrow> viewStack (onNodeDoubleClick now node st) =
     viewStack st @ [\<lparr>f_nodes = rawNodes st, f_edges = rawEdges st, f_label = currentLabel st\<rparr>]"
  by (auto simp: drillable_def onNodeDoubleClick_def Let_def)

lemma drill_keeps_graph:
  "drillable node \<Longrightarrow> rawNodes (onNodeDoubleClick now node st) = rawNodes st \<and>
     rawEdges (onNodeDoubleClick now node st) = rawEdges st \<and>
     expandedIdsRef (onNodeDoubleClick now node st) = expandedIdsRef st \<and>
     flowNodes (onNodeDoubleClick now node st) = flowNodes st \<and>
     flowEdges (onNodeDoubleClick now node st) = flowEdges st"
  by (auto simp: drillable_def onNodeDoubleClick_def Let_def)

lemma no_edges_no_throw: "\<not> dagre_layout_throws n [] exp"
  by (simp add: dagre_layout_throws_def dagreEdges_def)

lemma layout_no_edges: "getLayoutedElements n [] exp = Some (map (layout_node n exp) n, [])"
  by (simp add: getLayoutedElements_def no_edges_no_throw)

lemma applyUpdate_token: "activeRequestId (applyUpdate ns es st) = activeRequestId st"
  by (simp add: applyUpdate_def triggerLayout_def Let_def split: option.splits)

text \<open>What an applied update assigns whether or not the layout throws.\<close>

lemma applyUpdate_raw:
  "rawNodes (applyUpdate ns es st) = map safe_node ns \<and>
   rawEdges (applyUpdate ns es st) = es \<and>
   expandedIdsRef (applyUpdate ns es st) = nextExpanded (map safe_node ns) (expandedIdsRef st)"
  by (simp add: applyUpdate_def triggerLayout_def Let_def split: option.splits)

lemma ln_node_layout_node [simp]: "ln_node (layout_node ns exp n) = n"
  by (simp add: layout_node_def)

lemma ln_node_layout: "map ln_node (map (layout_node ns exp) ms) = ms"
  by (simp add: comp_def)

text \<open>When the layout returns, the update is displayed; when it throws, the display stays.\<close>

lemma applyUpdate_shown:
  assumes "\<not> dagre_layout_throws (map safe_node ns) es (expandedIdsRef (applyUpdate ns es st))"
  shows "flowEdges (applyUpdate ns es st) = es \<and>
     flowNodes (applyUpdate ns es st)
       = map (layout_node (map safe_node ns) (expandedIdsRef (applyUpdate ns es st))) (map safe_node ns) \<and>
     map ln_node (flowNodes (applyUpdate ns es st)) = map safe_node ns"
proof -
  from assms have ok: "\<not> dagre_layout_throws (map safe_node ns) es
      (nextExpanded (map safe_node ns) (expandedIdsRef st))"
    by (simp add: applyUpdate_raw)
  have e: "expandedIdsRef (applyUpdate ns es st) = nextExpanded (map safe_node ns) (expandedIdsRef st)"
    by (simp add: applyUpdate_raw)
  have "flowEdges (applyUpdate ns es st) = es \<and>
     flowNodes (applyUpdate ns es st)
       = map (layout_node (map safe_node ns) (nextExpanded (map safe_node ns) (expandedIdsRef st)))
           (map safe_node ns)"
    using ok by (simp add: applyUpdate_def triggerLayout_def getLayoutedElements_def Let_def)
  then show ?thesis
    unfolding e by (simp add: ln_node_layout)
qed


lemma applyUpdate_plain:
  "rawNodes (applyUpdate ns [] st) = map safe_node ns \<and>
   rawEdges (applyUpdate ns [] st) = [] \<and>
   flowEdges (applyUpdate ns [] st) = [] \<and>
   map ln_node (flowNodes (applyUpdate ns [] st)) = map safe_node ns"
  using applyUpdate_shown [OF no_edges_no_throw, of ns st] applyUpdate_raw [of ns "[]" st] by simp


lemma matching_applied:
  "activeRequestId st = Some t \<Longrightarrow> t \<noteq> [] \<Longrightarrow>
     handleMessage vs (UpdateGraph (Some t) ns es) st = applyUpdate ns es st"
  by (simp add: handleMessage_def truthy_def)


lemma drillable_system_node: "drillable (system_node i (f # fs))"
  by (simp add: drillable_def system_node_def plain_node_def)

lemma drillable_process_node: "drillable (process_node i (f # fs))"
  by (simp add: drillable_def process_node_def plain_node_def)

lemma safe_node_id: "n_id (safe_node n) = n_id n"
  by (simp add: safe_node_def Let_def)

lemma safe_node_parent: "n_parentNode (safe_node n) = n_parentNode n"
  by (simp add: safe_node_def Let_def)


lemma registered_matching_applied:
  "activeRequestId st = Some (show_nat t) \<Longrightarrow>
     registered_handleMessage (UpdateGraph (Some (show_nat t)) ns es) st = applyUpdate ns es st"
  unfolding registered_handleMessage_def by (rule matching_applied [OF _ show_nat_nonempty])

lemma goBack_restores:
  "viewStack st = fs @ [f] \<Longrightarrow> f_edges f = [] \<Longrightarrow>
     rawNodes (goBack st) = f_nodes f \<and> rawEdges (goBack st) = f_edges f \<and>
     viewStack (goBack st) = fs \<and> currentLabel (goBack st) = f_label f \<and>
     activeRequestId (goBack st) = None \<and>
     flowNodes (goBack st) = map (layout_node (f_nodes f) {}) (f_nodes f) \<and>
     flowEdges (goBack st) = f_edges f"
  by (simp add: goBack_def triggerLayout_def layout_no_edges Let_def)

lemma goBack_keeps_expanded: "expandedIdsRef (goBack st) = expandedIdsRef st"
  by (simp add: goBack_def triggerLayout_def Let_def split: option.splits)

section \<open>Properties of the layout\<close>

lemma visible_iff:
  assumes d: "distinct (map n_id nodes)" and n: "n \<in> set nodes"
  shows "n_id n \<in> visibleNodes nodes expanded \<longleftrightarrow> node_shown expanded n"
proof
  assume "n_id n \<in> visibleNodes nodes expanded"
  then obtain m where m: "m \<in> set nodes" "node_shown expanded m" "n_id m = n_id n"
    by (auto simp: visibleNodes_def)
  from d m(1) n m(3) have "m = n"
    by (meson distinct_map inj_onD)
  with m show "node_shown expanded n" by simp
next
  assume "node_shown expanded n"
  with n show "n_id n \<in> visibleNodes nodes expanded"
    by (auto simp: visibleNodes_def)
qed

lemmas lay = visibleNodes_def node_shown_def chain3_def plain_node_def truthy_def layout_node_def
  getLayoutedElements_def dagre_layout_throws_def dagreEdges_def

text \<open>
  C5, as the layout computes it. In a graph whose node ids are pairwise different, a node is
  in \<open>visibleNodes\<close> (and is returned with \<open>hidden: false\<close>) iff it has no parent or its
  direct parent is in the expanded set; no other ancestor is consulted. In the chain
  \<open>root \<rightarrow> group \<rightarrow> leaf\<close> with \<open>expanded = {root}\<close> the leaf is not visible, and with
  \<open>group\<close> added it is.
\<close>

theorem layout_visibility_direct_parent:
  assumes "distinct (map n_id nodes)" and "n \<in> set nodes"
  shows "(n_id n \<in> visibleNodes nodes expanded \<longleftrightarrow>
            (\<not> truthy (n_parentNode n) \<or> the (n_parentNode n) \<in> expanded)) \<and>
         (ln_hidden (layout_node nodes expanded n) \<longleftrightarrow>
            \<not> (\<not> truthy (n_parentNode n) \<or> the (n_parentNode n) \<in> expanded)) \<and>
         map n_parentNode chain3 = [None, Some ''root'', Some ''group''] \<and>
         ''leaf'' \<notin> visibleNodes chain3 {''root''} \<and>
         ''leaf'' \<in> visibleNodes chain3 {''root'', ''group''} \<and>
         map_option (\<lambda>r. map ln_hidden (fst r)) (getLayoutedElements chain3 [] {''root''})
           = Some [False, False, True] \<and>
         map_option (\<lambda>r. map ln_hidden (fst r)) (getLayoutedElements chain3 [] {''root'', ''group''})
           = Some [False, False, False]"
proof -
  have a: "n_id n \<in> visibleNodes nodes expanded \<longleftrightarrow>
            (\<not> truthy (n_parentNode n) \<or> the (n_parentNode n) \<in> expanded)"
    using visible_iff [OF assms] by (auto simp: node_shown_def)
  have b: "ln_hidden (layout_node nodes expanded n) \<longleftrightarrow> n_id n \<notin> visibleNodes nodes expanded"
    by (simp add: layout_node_def)
  have c: "map n_parentNode chain3 = [None, Some ''root'', Some ''group'']"
    "''leaf'' \<notin> visibleNodes chain3 {''root''}"
    "''leaf'' \<in> visibleNodes chain3 {''root'', ''group''}"
    "map_option (\<lambda>r. map ln_hidden (fst r)) (getLayoutedElements chain3 [] {''root''})
           = Some [False, False, True]"
    "map_option (\<lambda>r. map ln_hidden (fst r)) (getLayoutedElements chain3 [] {''root'', ''group''})
           = Some [False, False, False]"
    by (simp_all add: lay)
  show ?thesis using a b c by blast
qed

theorem layout_visibility_direct_parent_witness:
  "distinct (map n_id chain3) \<and> chain3 ! 2 \<in> set chain3 \<and>
   n_id (chain3 ! 2) = ''leaf'' \<and>
   n_id (chain3 ! 2) \<notin> visibleNodes chain3 {''root''}"
proof -
  have h1: "distinct (map n_id chain3)" by (simp add: chain3_def plain_node_def)
  have h2: "chain3 ! 2 \<in> set chain3" by (simp add: chain3_def)
  have i: "n_id (chain3 ! 2) = ''leaf''" by (simp add: chain3_def plain_node_def)
  have p: "n_parentNode (chain3 ! 2) = Some ''group''" by (simp add: chain3_def plain_node_def)
  from layout_visibility_direct_parent [OF h1 h2, of "{''root''}"]
  have "n_id (chain3 ! 2) \<notin> visibleNodes chain3 {''root''}"
    by (simp add: p truthy_def)
  with h1 h2 i show ?thesis by simp
qed

text \<open>
  C5 as stated fails: with \<open>expanded = {group}\<close> the leaf is visible and laid out, although
  its ancestor \<open>root\<close> is not expanded (and its parent \<open>group\<close> is hidden). The parent chain
  is not walked.
\<close>

theorem ancestors_walk_counterexample:
  "''leaf'' \<in> visibleNodes chain3 {''group''} \<and>
   map_option (\<lambda>r. map ln_hidden (fst r)) (getLayoutedElements chain3 [] {''group''})
     = Some [False, True, False] \<and>
   spec_ancestors (length chain3) chain3 ''leaf'' = [''group'', ''root''] \<and>
   \<not> spec_reachable chain3 {''group''} ''leaf''"
  by (simp add: lay spec_reachable_def numeral_3_eq_3)

section \<open>Background updates and going back\<close>

lemma background_applied_without_token:
  "activeRequestId st = None \<Longrightarrow>
     registered_handleMessage (UpdateGraph None ns es) st = applyUpdate ns es st"
  by (simp add: registered_handleMessage_def handleMessage_def truthy_def)

lemma applyUpdate_viewStack: "viewStack (applyUpdate ns es st) = viewStack st"
  by (simp add: applyUpdate_def triggerLayout_def Let_def split: option.splits)

lemma view0_eq: "view0 = applyUpdate overview [] initialView"
  unfolding view0_def by (rule background_applied_without_token) (simp add: initialView_def)

lemma view2_eq: "view2 = applyUpdate [process_node ''p'' [''/a.ts'']] [] view1"
  unfolding view2_def
  by (rule registered_matching_applied) (simp add: view1_def drill_sets_token drillable_system_node)

lemma view4_eq: "view4 = applyUpdate [plain_node ''c'' (Some ''component'') None] [] view3"
  unfolding view4_def
  by (rule registered_matching_applied) (simp add: view3_def drill_sets_token drillable_process_node)

lemma viewStack_view4:
  "viewStack view4 =
     [\<lparr>f_nodes = rawNodes view0, f_edges = rawEdges view0, f_label = currentLabel view0\<rparr>,
      \<lparr>f_nodes = rawNodes view2, f_edges = rawEdges view2, f_label = currentLabel view2\<rparr>]"
proof -
  have "viewStack view0 = []"
    by (simp add: view0_eq applyUpdate_viewStack initialView_def)
  then have "viewStack view2 =
      [\<lparr>f_nodes = rawNodes view0, f_edges = rawEdges view0, f_label = currentLabel view0\<rparr>]"
    by (simp add: view2_eq applyUpdate_viewStack view1_def drill_pushes_frame drillable_system_node)
  then show ?thesis
    by (simp add: view4_eq applyUpdate_viewStack view3_def drill_pushes_frame drillable_process_node)
qed

text \<open>
  While a token is active, an update without a request id changes nothing, whatever the
  listener's closure holds.
\<close>

lemma background_ignored_while_token_active:
  "truthy (activeRequestId st) \<Longrightarrow> handleMessage vs (UpdateGraph None ns es) st = st"
  by (auto simp: handleMessage_def truthy_def split: option.splits)

text \<open>
  C7 at the failing input. After two drill-downs and one step back the navigation stack
  holds one frame, no token is active and the view shows the process flow of \<open>A\<close>. The
  registered listener applies a background update all the same: the raw and the displayed
  graph become the workspace overview.
\<close>

theorem background_update_applied_in_drilled_view:
  "length (viewStack deep_state) = 1 \<and>
   activeRequestId deep_state = None \<and>
   map n_id (rawNodes deep_state) = [''p''] \<and>
   registered_handleMessage (UpdateGraph None overview []) deep_state
     = applyUpdate overview [] deep_state \<and>
   map n_id (rawNodes (registered_handleMessage (UpdateGraph None overview []) deep_state))
     = [''A'', ''B''] \<and>
   map (\<lambda>n. n_id (ln_node n))
       (flowNodes (registered_handleMessage (UpdateGraph None overview []) deep_state))
     = [''A'', ''B'']"
proof -
  have stk: "viewStack view4 =
      [\<lparr>f_nodes = rawNodes view0, f_edges = rawEdges view0, f_label = currentLabel view0\<rparr>] @
      [\<lparr>f_nodes = rawNodes view2, f_edges = rawEdges view2, f_label = currentLabel view2\<rparr>]"
    by (simp add: viewStack_view4)
  have "rawEdges view2 = []"
    using applyUpdate_plain [of "[process_node ''p'' [''/a.ts'']]" view1] by (simp add: view2_eq)
  then have noe: "f_edges \<lparr>f_nodes = rawNodes view2, f_edges = rawEdges view2,
      f_label = currentLabel view2\<rparr> = []"
    by simp
  note restored = goBack_restores [OF stk noe]
  have len: "length (viewStack deep_state) = 1"
    using restored by (simp add: deep_state_def)
  have tok: "activeRequestId deep_state = None"
    using restored by (simp add: deep_state_def)
  have raw: "map n_id (rawNodes deep_state) = [''p'']"
    using restored applyUpdate_plain [of "[process_node ''p'' [''/a.ts'']]" view1]
    by (simp add: deep_state_def view2_eq safe_node_id process_node_def plain_node_def)
  note app = background_applied_without_token [OF tok, of overview "[]"]
  have ids: "map n_id (map safe_node overview) = [''A'', ''B'']"
    by (simp add: overview_def safe_node_id system_node_def plain_node_def)
  have new: "map n_id (rawNodes (applyUpdate overview [] deep_state)) = [''A'', ''B'']"
    using applyUpdate_plain [of overview deep_state] ids by simp
  have shown: "map (\<lambda>n. n_id (ln_node n)) (flowNodes (applyUpdate overview [] deep_state)) = [''A'', ''B'']"
  proof -
    have "map (\<lambda>n. n_id (ln_node n)) (flowNodes (applyUpdate overview [] deep_state))
        = map n_id (map ln_node (flowNodes (applyUpdate overview [] deep_state)))"
      by simp
    also have "\<dots> = map n_id (map safe_node overview)"
      using applyUpdate_plain [of overview deep_state] by simp
    finally show ?thesis using ids by simp
  qed
  show ?thesis
    using len tok raw app new shown by simp
qed

lemma toggle_group:
  "n_type node = Some ''group'' \<Longrightarrow>
     expandedIdsRef (onNodeDoubleClick now node st) =
       (if n_id node \<in> expandedIdsRef st then expandedIdsRef st - {n_id node}
        else insert (n_id node) (expandedIdsRef st)) \<and>
     viewStack (onNodeDoubleClick now node st) = viewStack st \<and>
     rawNodes (onNodeDoubleClick now node st) = rawNodes st \<and>
     rawEdges (onNodeDoubleClick now node st) = rawEdges st \<and>
     activeRequestId (onNodeDoubleClick now node st) = activeRequestId st"
  by (simp add: onNodeDoubleClick_def triggerLayout_def Let_def split: option.splits)

lemma toggle_group_shown:
  "n_type node = Some ''group'' \<Longrightarrow> rawEdges st = [] \<Longrightarrow>
     flowNodes (onNodeDoubleClick now node st) =
       map (layout_node (rawNodes st) (expandedIdsRef (onNodeDoubleClick now node st))) (rawNodes st)"
  by (simp add: onNodeDoubleClick_def triggerLayout_def layout_no_edges Let_def)

lemma applyUpdate_expanded_kept:
  "expandedIdsRef st \<noteq> {} \<or> length (filter (\<lambda>n. \<not> truthy (n_parentNode n)) (map safe_node ns)) \<noteq> 1
     \<Longrightarrow> expandedIdsRef (applyUpdate ns es st) = expandedIdsRef st"
  by (auto simp: applyUpdate_raw nextExpanded_def Let_def)

lemma grouped_roots:
  "length (filter (\<lambda>n. \<not> truthy (n_parentNode n)) (map safe_node grouped)) = 2"
  by (simp add: grouped_def safe_node_parent plain_node_def system_node_def truthy_def)

lemma frame0_facts:
  "expandedIdsRef frame0 = {''g''} \<and> viewStack frame0 = [] \<and> activeRequestId frame0 = None \<and>
   rawNodes frame0 = map safe_node grouped \<and> rawEdges frame0 = []"
proof -
  have base: "registered_handleMessage (UpdateGraph None grouped []) initialView
      = applyUpdate grouped [] initialView"
    by (rule background_applied_without_token) (simp add: initialView_def)
  have e: "expandedIdsRef (applyUpdate grouped [] initialView) = {}"
    using applyUpdate_expanded_kept [of initialView grouped "[]"] grouped_roots
    by (simp add: initialView_def)
  have t: "n_type (plain_node ''g'' (Some ''group'') None) = Some ''group''"
    and i: "n_id (plain_node ''g'' (Some ''group'') None) = ''g''"
    by (simp_all add: plain_node_def)
  show ?thesis
    unfolding frame0_def base
    using toggle_group [OF t, of 0 "applyUpdate grouped [] initialView"] e
      applyUpdate_plain [of grouped initialView]
    by (simp add: i applyUpdate_viewStack applyUpdate_token initialView_def)
qed

lemma frame1_facts:
  "expandedIdsRef frame1 = {''g''} \<and>
   viewStack frame1 = [] @ [\<lparr>f_nodes = rawNodes frame0, f_edges = rawEdges frame0,
                           f_label = currentLabel frame0\<rparr>] \<and>
   map n_id (rawNodes frame1) = [''p'']"
proof -
  let ?d = "onNodeDoubleClick 1 (system_node ''A'' [''/a.ts'']) frame0"
  have eq: "frame1 = applyUpdate [process_node ''p'' [''/a.ts'']] [] ?d"
    unfolding frame1_def
    by (rule registered_matching_applied) (simp add: drill_sets_token drillable_system_node)
  have e: "expandedIdsRef ?d = {''g''}"
    using drill_keeps_graph [OF drillable_system_node, of 1 "''A''" "''/a.ts''" "[]" frame0] frame0_facts
    by simp
  have s: "viewStack ?d = [\<lparr>f_nodes = rawNodes frame0, f_edges = rawEdges frame0,
                           f_label = currentLabel frame0\<rparr>]"
    using frame0_facts by (simp add: drill_pushes_frame drillable_system_node)
  show ?thesis
    using e s applyUpdate_expanded_kept [of ?d "[process_node ''p'' [''/a.ts'']]" "[]"]
      applyUpdate_plain [of "[process_node ''p'' [''/a.ts'']]" ?d]
    by (simp add: eq applyUpdate_viewStack safe_node_id process_node_def plain_node_def)
qed

text \<open>
  C4 at the failing input. The user expanded group \<open>g\<close> in frame \<open>F0\<close>, drilled into \<open>A\<close>
  and went back. The frame is popped, the nodes and edges of \<open>F0\<close> are restored and the
  token is cleared, and the layout is computed with the empty set (the child of \<open>g\<close> is
  hidden); but the set of expanded ids still holds \<open>g\<close>. A double click on \<open>g\<close> then
  removes \<open>g\<close> from the set instead of expanding it, and the child stays hidden.
\<close>

theorem back_keeps_expansion_state:
  "viewStack frame0 = [] \<and> expandedIdsRef frame0 = {''g''} \<and>
   viewStack frame1 = [\<lparr>f_nodes = rawNodes frame0, f_edges = rawEdges frame0,
                        f_label = currentLabel frame0\<rparr>] \<and>
   rawNodes (goBack frame1) = rawNodes frame0 \<and>
   rawEdges (goBack frame1) = rawEdges frame0 \<and>
   viewStack (goBack frame1) = [] \<and>
   activeRequestId (goBack frame1) = None \<and>
   expandedIdsRef (goBack frame1) = {''g''} \<and>
   expandedIdsRef (goBack frame1) \<noteq> {} \<and>
   map ln_hidden (flowNodes (goBack frame1)) = [False, True, False] \<and>
   expandedIdsRef (onNodeDoubleClick 2 (plain_node ''g'' (Some ''group'') None) (goBack frame1)) = {} \<and>
   map ln_hidden (flowNodes (onNodeDoubleClick 2 (plain_node ''g'' (Some ''group'') None) (goBack frame1)))
     = [False, True, False]"
proof -
  have stk: "viewStack frame1 = [] @ [\<lparr>f_nodes = rawNodes frame0, f_edges = rawEdges frame0,
                                     f_label = currentLabel frame0\<rparr>]"
    using frame1_facts by blast
  have noe: "f_edges \<lparr>f_nodes = rawNodes frame0, f_edges = rawEdges frame0,
      f_label = currentLabel frame0\<rparr> = []"
    using frame0_facts by simp
  note restored = goBack_restores [OF stk noe]
  have e: "expandedIdsRef (goBack frame1) = {''g''}"
    using frame1_facts by (simp add: goBack_keeps_expanded)
  have raw: "rawNodes (goBack frame1) = map safe_node grouped"
    using restored frame0_facts by simp
  have hid: "map ln_hidden (map (layout_node (map safe_node grouped) {}) (map safe_node grouped))
      = [False, True, False]"
    by (simp add: layout_node_def visibleNodes_def node_shown_def grouped_def safe_node_parent
        safe_node_id plain_node_def system_node_def truthy_def)
  have f1: "flowNodes (goBack frame1) = map (layout_node (map safe_node grouped) {}) (map safe_node grouped)"
    using restored frame0_facts by simp
  have h1: "map ln_hidden (flowNodes (goBack frame1)) = [False, True, False]"
    unfolding f1 by (rule hid)
  have t: "n_type (plain_node ''g'' (Some ''group'') None) = Some ''group''"
    and i: "n_id (plain_node ''g'' (Some ''group'') None) = ''g''"
    by (simp_all add: plain_node_def)
  have raw_e: "rawEdges (goBack frame1) = []"
    using restored noe by simp
  note tg = toggle_group [OF t, of 2 "goBack frame1"]
  note tgs = toggle_group_shown [OF t raw_e, of 2]
  have e2: "expandedIdsRef (onNodeDoubleClick 2 (plain_node ''g'' (Some ''group'') None) (goBack frame1)) = {}"
    using tg e by (simp add: i)
  have f2: "flowNodes (onNodeDoubleClick 2 (plain_node ''g'' (Some ''group'') None) (goBack frame1))
      = map (layout_node (map safe_node grouped) {}) (map safe_node grouped)"
    using tgs by (simp only: e2 raw)
  have h2: "map ln_hidden (flowNodes (onNodeDoubleClick 2 (plain_node ''g'' (Some ''group'') None) (goBack frame1)))
     = [False, True, False]"
    unfolding f2 by (rule hid)
  show ?thesis
    using frame0_facts stk restored e h1 e2 h2 by simp
qed






section \<open>Properties of node creation and ownership\<close>

lemma aggregateEdges_unfold:
  "aggregateEdges outgoing completion st =
     fold (aggregateOutgoingCalls outgoing (symbolOwnerMap st) (nodeIdMap st))
       (completion (callsPromises st)) []"
  by (simp add: aggregateEdges_def aggregateEdges_shared_def)

lemma generateGraph_unfold:
  "generateGraph basename outgoing completion files semanticMap virtualRootLabel includeFiles =
     (let st = graphState basename files semanticMap virtualRootLabel includeFiles
      in \<lparr>g_nodes = st_nodes st,
          g_edges = concat (map edge_of (aggregateEdges outgoing completion st))\<rparr>)"
  by (simp add: generateGraph_def generateGraph_shared_def aggregateEdges_def Let_def)

lemma getNodeId_fields [simp]:
  "st_nodes (getNodeId u s st) = st_nodes st"
  "symbolOwnerMap (getNodeId u s st) = symbolOwnerMap st"
  "hasChildren (getNodeId u s st) = hasChildren st"
  "fileMap (getNodeId u s st) = fileMap st"
  "moduleGroups (getNodeId u s st) = moduleGroups st"
  "visitedSymbols (getNodeId u s st) = visitedSymbols st"
  "callsPromises (getNodeId u s st) = callsPromises st"
  by (simp_all add: getNodeId_def)

lemma setOwner_fields [simp]:
  "st_nodes (setOwner u ow s st) = st_nodes st"
  "symbolOwnerMap (setOwner u ow s st) = (symbolOwnerMap st)(nodeId u s \<mapsto> ow)"
  "hasChildren (setOwner u ow s st) = hasChildren st"
  "fileMap (setOwner u ow s st) = fileMap st"
  "moduleGroups (setOwner u ow s st) = moduleGroups st"
  "visitedSymbols (setOwner u ow s st) = visitedSymbols st"
  "callsPromises (setOwner u ow s st) = callsPromises st"
  by (simp_all add: setOwner_def Let_def)

lemma assignOwner_nodes:
  "st_nodes (assignOwner u ow subs st) = st_nodes st"
  "st_nodes (assignOwner_sub u ow sub st) = st_nodes st"
  by (induction u ow subs st and u ow sub st rule: assignOwner_assignOwner_sub.induct) simp_all

lemma fold_setOwner_nodes: "st_nodes (fold (setOwner u ow) subs st) = st_nodes st"
  by (induction subs arbitrary: st) simp_all

lemma processSymbol_flat_nodes:
  "st_nodes (processSymbol False u fileId fileId sp item st) = st_nodes st @ flat_nodes u sp item"
  by (simp add: processSymbol_def Let_def flat_nodes_def classlike_def functionlike_def
      assignOwner_nodes fold_setOwner_nodes)

lemma processSymbols_flat_nodes:
  "st_nodes (processSymbols False u fileId items fileId sp st)
     = st_nodes st @ concat (map (flat_nodes u sp) items)"
  unfolding processSymbols_def
  by (induction items arbitrary: st) (simp_all add: processSymbol_flat_nodes)

lemma processCalls_nodes:
  "st_nodes (processCalls u items st) = st_nodes st"
  "st_nodes (processCalls_item u item st) = st_nodes st"
  by (induction u items st and u item st rule: processCalls_processCalls_item.induct)
     (simp_all add: Let_def)

lemma collectCalls_nodes: "st_nodes (collectCalls file st) = st_nodes st"
  by (simp add: collectCalls_def processCalls_nodes)

lemma flat_nodes_no_class:
  "\<forall>s\<in>set items. \<not> classlike s \<Longrightarrow>
     concat (map (flat_nodes u sp) items)
       = map (\<lambda>s. function_node (nodeId u s) sp s) (filter functionlike items)"
  by (induction items) (simp_all add: flat_nodes_def)

lemma groupId_nonempty: "groupId_of m \<noteq> []"
  by (simp add: groupId_of_def)

lemma flattened_single_file_nodes:
  "g_nodes (generateGraph basename outgoing completion [\<lparr>document = doc, symbols = syms\<rparr>]
              semanticMap virtualRootLabel False)
     = container_nodes semanticMap virtualRootLabel (fsPath doc) @
       concat (map (flat_nodes (uriStr doc) (container_of semanticMap (fsPath doc))) syms)"
  by (auto simp: generateGraph_unfold graphState_def collectCalls_nodes processFile_def Let_def
      resolveParent_def initialGraphState_def processSymbols_flat_nodes container_nodes_def
      container_of_def groupId_nonempty truthy_def ROOT_ID_def
      split: option.splits)

text \<open>
  When a root label or a module for the file is supplied, that container is a node of the
  flattened graph.
\<close>

lemma flattened_container_present:
  assumes "truthy virtualRootLabel \<or> (\<exists>sm m. semanticMap = Some sm \<and> sm (fsPath doc) = Some m)"
  shows "container_of semanticMap (fsPath doc)
     \<in> n_id ` set (g_nodes (generateGraph basename outgoing completion
                               [\<lparr>document = doc, symbols = syms\<rparr>] semanticMap
                               virtualRootLabel False))"
  using assms
  by (auto simp: flattened_single_file_nodes container_nodes_def container_of_def group_node_def
      split: option.splits)

text \<open>
  C8, with \<open>N\<close> counting what the code turns into components. Flattened mode
  (\<open>includeFiles = false\<close>) on one file without top-level classes or interfaces: the
  component nodes of the graph are exactly one node per top-level symbol of kind function,
  method, constant or variable, in order; there are as many as there are such symbols; each
  has the supplied container (the module's group node, else the root id) as its parent;
  there is no file node; and when a root label or a module for the file is supplied, the
  container is a node of the graph.
\<close>

theorem flattened_functions_become_components:
  assumes "\<forall>s\<in>set syms. s_kind s \<noteq> Class \<and> s_kind s \<noteq> Interface"
  shows
    "filter (\<lambda>n. n_type n = Some ''component'')
       (g_nodes (generateGraph basename outgoing completion [\<lparr>document = doc, symbols = syms\<rparr>]
                   semanticMap virtualRootLabel False))
       = map (\<lambda>s. function_node (nodeId (uriStr doc) s) (container_of semanticMap (fsPath doc)) s)
           (filter functionlike syms) \<and>
     length (filter (\<lambda>n. n_type n = Some ''component'')
       (g_nodes (generateGraph basename outgoing completion [\<lparr>document = doc, symbols = syms\<rparr>]
                   semanticMap virtualRootLabel False)))
       = length (filter functionlike syms) \<and>
     map n_parentNode (filter (\<lambda>n. n_type n = Some ''component'')
       (g_nodes (generateGraph basename outgoing completion [\<lparr>document = doc, symbols = syms\<rparr>]
                   semanticMap virtualRootLabel False)))
       = replicate (length (filter functionlike syms)) (Some (container_of semanticMap (fsPath doc))) \<and>
     filter (\<lambda>n. d_type n = Some ''file'')
       (g_nodes (generateGraph basename outgoing completion [\<lparr>document = doc, symbols = syms\<rparr>]
                   semanticMap virtualRootLabel False)) = [] \<and>
     (truthy virtualRootLabel \<or> (\<exists>sm m. semanticMap = Some sm \<and> sm (fsPath doc) = Some m) \<longrightarrow>
        container_of semanticMap (fsPath doc)
          \<in> n_id ` set (g_nodes (generateGraph basename outgoing completion
                                   [\<lparr>document = doc, symbols = syms\<rparr>] semanticMap
                                   virtualRootLabel False)))"
proof -
  let ?G = "g_nodes (generateGraph basename outgoing completion [\<lparr>document = doc, symbols = syms\<rparr>]
                   semanticMap virtualRootLabel False)"
  let ?c = "container_of semanticMap (fsPath doc)"
  let ?fs = "map (\<lambda>s. function_node (nodeId (uriStr doc) s) ?c s) (filter functionlike syms)"
  from assms have nc: "\<forall>s\<in>set syms. \<not> classlike s"
    by (simp add: classlike_def)
  have G: "?G = container_nodes semanticMap virtualRootLabel (fsPath doc) @ ?fs"
    by (simp add: flattened_single_file_nodes flat_nodes_no_class [OF nc])
  have c1: "filter (\<lambda>n. n_type n = Some ''component'')
              (container_nodes semanticMap virtualRootLabel (fsPath doc)) = []"
    and c2: "filter (\<lambda>n. d_type n = Some ''file'')
              (container_nodes semanticMap virtualRootLabel (fsPath doc)) = []"
    by (simp_all add: container_nodes_def group_node_def split: option.splits)
  have f1: "filter (\<lambda>n. n_type n = Some ''component'') ?fs = ?fs"
    and f2: "filter (\<lambda>n. d_type n = Some ''file'') ?fs = []"
    by (simp_all add: filter_map comp_def function_node_def)
  have comps: "filter (\<lambda>n. n_type n = Some ''component'') ?G = ?fs"
    by (simp only: G filter_append c1 f1 append_Nil)
  have files: "filter (\<lambda>n. d_type n = Some ''file'') ?G = []"
    by (simp only: G filter_append c2 f2 append_Nil)
  have parents: "map n_parentNode ?fs = replicate (length (filter functionlike syms)) (Some ?c)"
    by (simp add: comp_def function_node_def map_replicate_const)
  have present: "truthy virtualRootLabel \<or> (\<exists>sm m. semanticMap = Some sm \<and> sm (fsPath doc) = Some m) \<longrightarrow>
      container_of semanticMap (fsPath doc) \<in> n_id ` set ?G"
    using flattened_container_present [of virtualRootLabel semanticMap doc basename outgoing
        completion syms] by blast
  show ?thesis
    unfolding comps files using parents present by simp
qed

lemma subtree_unfold: "subtree item = item # concat (map subtree (s_children item))"
  by (cases item) simp

lemma assignOwner_owner:
  "symbolOwnerMap (assignOwner u ow subs st) k =
     (if k \<in> nodeId u ` set (concat (map subtree subs)) then Some ow else symbolOwnerMap st k)"
  "symbolOwnerMap (assignOwner_sub u ow sub st) k =
     (if k \<in> nodeId u ` set (subtree sub) then Some ow else symbolOwnerMap st k)"
proof (induction u ow subs st and u ow sub st rule: assignOwner_assignOwner_sub.induct)
  case (1 u owner st)
  show ?case by simp
next
  case (2 u owner sub subItems st)
  show ?case
    by (simp add: "2.IH" image_Un)
next
  case (3 u owner n d k r s ch st)
  show ?case
    by (simp add: "3.IH")
qed

lemma fold_setOwner_owner:
  "symbolOwnerMap (fold (setOwner u ow) subs st) k =
     (if k \<in> nodeId u ` set subs then Some ow else symbolOwnerMap st k)"
  by (induction subs arbitrary: st) auto

lemma processSymbol_class:
  "classlike item \<Longrightarrow>
     processSymbol inc u fileId ownerId sp item st =
       fold (setOwner u (nodeId u item)) (s_children item)
         ((getNodeId u item st)
            \<lparr>hasChildren := True,
             st_nodes := st_nodes st @
               [class_node (nodeId u item) (if inc then ownerId else sp) item],
             classMap := (classMap (getNodeId u item st))(u @ ''::'' @ s_name item \<mapsto> nodeId u item),
             symbolOwnerMap := (symbolOwnerMap st)(nodeId u item \<mapsto> nodeId u item)\<rparr>)"
  by (simp add: processSymbol_def classlike_def Let_def)

lemma processSymbol_function:
  "\<not> classlike item \<Longrightarrow> functionlike item \<Longrightarrow>
     processSymbol inc u fileId ownerId sp item st =
       (if ownerId = fileId \<and> \<not> inc then
          assignOwner u (nodeId u item) (s_children item)
            ((getNodeId u item st)
               \<lparr>st_nodes := st_nodes st @ [function_node (nodeId u item) sp item],
                symbolOwnerMap := (symbolOwnerMap st)(nodeId u item \<mapsto> nodeId u item)\<rparr>)
        else
          assignOwner u (if inc then ownerId else sp) (s_children item)
            ((getNodeId u item st)
               \<lparr>symbolOwnerMap := (symbolOwnerMap st)(nodeId u item \<mapsto> (if inc then ownerId else sp))\<rparr>))"
  unfolding processSymbol_def classlike_def functionlike_def Let_def
  by (simp only: getNodeId_fields if_False if_True)

lemma processSymbol_other:
  "\<not> classlike item \<Longrightarrow> \<not> functionlike item \<Longrightarrow>
     processSymbol inc u fileId ownerId sp item st = getNodeId u item st"
  unfolding processSymbol_def classlike_def functionlike_def Let_def
  by (simp only: if_False)

lemma processSymbol_owner_dom:
  "dom (symbolOwnerMap st) \<union> nodeId u ` set (owned_symbols item)
     \<subseteq> dom (symbolOwnerMap (processSymbol inc u fileId ownerId sp item st))"
proof (cases "classlike item")
  case True
  then show ?thesis
    by (auto simp: processSymbol_class owned_symbols_def fold_setOwner_owner dom_def)
next
  case nc: False
  show ?thesis
  proof (cases "functionlike item")
    case True
    have "set (subtree item) = insert item (set (concat (map subtree (s_children item))))"
      by (subst subtree_unfold) simp
    with nc True show ?thesis
      by (auto simp: processSymbol_function owned_symbols_def assignOwner_owner dom_def)
  next
    case False
    with nc show ?thesis
      by (simp add: processSymbol_other owned_symbols_def)
  qed
qed

lemma processSymbols_owner_dom:
  "dom (symbolOwnerMap st) \<union> nodeId u ` set (concat (map owned_symbols items))
     \<subseteq> dom (symbolOwnerMap (processSymbols inc u fileId items ownerId sp st))"
  unfolding processSymbols_def
proof (induction items arbitrary: st)
  case Nil
  show ?case by simp
next
  case (Cons item items)
  have "dom (symbolOwnerMap st) \<union> nodeId u ` set (owned_symbols item)
      \<subseteq> dom (symbolOwnerMap (processSymbol inc u fileId ownerId sp item st))"
    by (rule processSymbol_owner_dom)
  with Cons.IH [of "processSymbol inc u fileId ownerId sp item st"] show ?case
    by (simp only: fold_Cons o_apply list.map concat.simps set_append image_Un) blast
qed

lemma owners_resolve_iff:
  "owners_resolve st \<longleftrightarrow> (\<forall>k ow. symbolOwnerMap st k = Some ow \<longrightarrow> ow \<in> n_id ` set (st_nodes st))"
  by (auto simp: owners_resolve_def ran_def)

lemma processSymbol_node_ids:
  "n_id ` set (st_nodes st) \<subseteq> n_id ` set (st_nodes (processSymbol inc u fileId ownerId sp item st))"
proof (cases "classlike item")
  case True
  then show ?thesis
    by (auto simp: processSymbol_class fold_setOwner_nodes)
next
  case nc: False
  show ?thesis
  proof (cases "functionlike item")
    case True
    with nc show ?thesis
      by (auto simp: processSymbol_function assignOwner_nodes)
  next
    case False
    with nc show ?thesis
      by (simp add: processSymbol_other)
  qed
qed

lemma processSymbol_resolve:
  assumes inv: "owners_resolve st"
    and own: "inc \<longrightarrow> fileId \<in> n_id ` set (st_nodes st)"
  shows "owners_resolve (processSymbol inc u fileId fileId sp item st)"
proof (cases "classlike item")
  case True
  have "n_id (class_node i p item) = i" for i p
    by (simp add: class_node_def)
  with True inv show ?thesis
    by (auto simp: owners_resolve_iff processSymbol_class fold_setOwner_owner fold_setOwner_nodes
        split: if_splits)
next
  case nc: False
  show ?thesis
  proof (cases "functionlike item")
    case True
    have "n_id (function_node i p item) = i" for i p
      by (simp add: function_node_def)
    with nc True inv own show ?thesis
      by (auto simp: owners_resolve_iff processSymbol_function assignOwner_owner assignOwner_nodes
          split: if_splits)
  next
    case False
    with nc inv show ?thesis
      by (simp add: processSymbol_other owners_resolve_iff)
  qed
qed

lemma processSymbols_resolve:
  "owners_resolve st \<Longrightarrow> inc \<longrightarrow> fileId \<in> n_id ` set (st_nodes st) \<Longrightarrow>
     owners_resolve (processSymbols inc u fileId items fileId sp st)"
  unfolding processSymbols_def
proof (induction items arbitrary: st)
  case Nil
  then show ?case by simp
next
  case (Cons item items)
  have 1: "owners_resolve (processSymbol inc u fileId fileId sp item st)"
    by (rule processSymbol_resolve [OF Cons.prems])
  have 2: "inc \<longrightarrow> fileId \<in> n_id ` set (st_nodes (processSymbol inc u fileId fileId sp item st))"
    using Cons.prems(2) processSymbol_node_ids [of st inc u fileId fileId sp item] by blast
  from Cons.IH [OF 1 2] show ?case by simp
qed

lemma processSymbol_appends:
  "\<exists>ns. st_nodes (processSymbol inc u fileId ownerId sp item st) = st_nodes st @ ns"
  by (cases "classlike item"; cases "functionlike item")
     (simp_all add: processSymbol_class processSymbol_function processSymbol_other
        fold_setOwner_nodes assignOwner_nodes)

lemma processSymbols_appends:
  "\<exists>ns. st_nodes (processSymbols inc u fileId items ownerId sp st) = st_nodes st @ ns"
  unfolding processSymbols_def
proof (induction items arbitrary: st)
  case Nil
  show ?case by simp
next
  case (Cons item items)
  obtain ns where 1: "st_nodes (processSymbol inc u fileId ownerId sp item st) = st_nodes st @ ns"
    using processSymbol_appends by blast
  obtain ms where 2: "st_nodes (fold (processSymbol inc u fileId ownerId sp) items
        (processSymbol inc u fileId ownerId sp item st))
      = st_nodes (processSymbol inc u fileId ownerId sp item st) @ ms"
    using Cons.IH by blast
  show ?case
    by (simp add: 1 2)
qed

lemma resolveParent_fields:
  "resolveParent sem lbl path st = (p, st') \<Longrightarrow>
     symbolOwnerMap st' = symbolOwnerMap st \<and>
     n_id ` set (st_nodes st) \<subseteq> n_id ` set (st_nodes st')"
  by (auto simp: resolveParent_def Let_def split: option.splits if_splits)

lemma image_list_update_same:
  "i < length xs \<Longrightarrow> f x = f (xs ! i) \<Longrightarrow> f ` set (xs[i := x]) = f ` set xs"
proof -
  assume i: "i < length xs" and fx: "f x = f (xs ! i)"
  have "map f (xs[i := x]) = map f xs"
    using i fx by (simp add: map_update list_update_same_conv)
  then have "set (map f (xs[i := x])) = set (map f xs)" by simp
  then show ?thesis by simp
qed

lemma processFile_unfold:
  assumes r: "resolveParent sem lbl (fsPath (document file)) st = (p, st1)"
  shows "processFile basename sem lbl inc file st =
      (let st3 = processSymbols inc (uriStr (document file)) (''file-'' @ uriStr (document file))
                   (symbols file) (''file-'' @ uriStr (document file))
                   (if truthy p then the p else ROOT_ID)
                   (st1\<lparr>fileMap := (fileMap st1)
                           (uriStr (document file) \<mapsto> ''file-'' @ uriStr (document file)),
                        st_nodes := (if inc then st_nodes st1 @
                           [file_node (''file-'' @ uriStr (document file)) p
                              (basename (fsPath (document file)))]
                           else st_nodes st1),
                        hasChildren := False\<rparr>)
       in if inc \<and> \<not> hasChildren st3
          then st3\<lparr>st_nodes := (st_nodes st3)[length (st_nodes st1) :=
                 (file_node (''file-'' @ uriStr (document file)) p (basename (fsPath (document file))))
                   \<lparr>n_type := Some ''component'', d_detail := Some ''Source File''\<rparr>]\<rparr>
          else st3)"
  by (simp add: processFile_def r Let_def)

lemma processFile_owner_dom:
  "dom (symbolOwnerMap st) \<union>
     nodeId (uriStr (document file)) ` set (concat (map owned_symbols (symbols file)))
     \<subseteq> dom (symbolOwnerMap (processFile basename sem lbl inc file st))"
proof -
  obtain p st1 where r: "resolveParent sem lbl (fsPath (document file)) st = (p, st1)"
    by (cases "resolveParent sem lbl (fsPath (document file)) st")
  let ?st2 = "st1\<lparr>fileMap := (fileMap st1)
                           (uriStr (document file) \<mapsto> ''file-'' @ uriStr (document file)),
                        st_nodes := (if inc then st_nodes st1 @
                           [file_node (''file-'' @ uriStr (document file)) p
                              (basename (fsPath (document file)))]
                           else st_nodes st1),
                        hasChildren := False\<rparr>"
  let ?st3 = "processSymbols inc (uriStr (document file)) (''file-'' @ uriStr (document file))
                   (symbols file) (''file-'' @ uriStr (document file))
                   (if truthy p then the p else ROOT_ID) ?st2"
  from resolveParent_fields [OF r] have o: "symbolOwnerMap ?st2 = symbolOwnerMap st" by simp
  have f: "symbolOwnerMap (processFile basename sem lbl inc file st) = symbolOwnerMap ?st3"
    by (simp add: processFile_unfold [OF r] Let_def)
  show ?thesis
    unfolding f o [symmetric] by (rule processSymbols_owner_dom)
qed

lemma processFile_resolve:
  assumes inv: "owners_resolve st"
  shows "owners_resolve (processFile basename sem lbl inc file st)"
proof -
  let ?u = "uriStr (document file)"
  let ?fid = "''file-'' @ ?u"
  obtain p st1 where r: "resolveParent sem lbl (fsPath (document file)) st = (p, st1)"
    by (cases "resolveParent sem lbl (fsPath (document file)) st")
  let ?fn = "file_node ?fid p (basename (fsPath (document file)))"
  let ?st2 = "st1\<lparr>fileMap := (fileMap st1)(?u \<mapsto> ?fid),
              st_nodes := (if inc then st_nodes st1 @ [?fn] else st_nodes st1),
              hasChildren := False\<rparr>"
  let ?st3 = "processSymbols inc ?u ?fid (symbols file) ?fid (if truthy p then the p else ROOT_ID) ?st2"
  from resolveParent_fields [OF r] inv have inv1: "owners_resolve st1"
    by (auto simp: owners_resolve_iff)
  then have inv2: "owners_resolve ?st2"
    by (auto simp: owners_resolve_iff)
  have own: "inc \<longrightarrow> ?fid \<in> n_id ` set (st_nodes ?st2)"
    by (simp add: file_node_def)
  have inv3: "owners_resolve ?st3"
    by (rule processSymbols_resolve [OF inv2 own])
  show ?thesis
  proof (cases "inc \<and> \<not> hasChildren ?st3")
    case False
    have "processFile basename sem lbl inc file st = ?st3"
      by (simp only: processFile_unfold [OF r] Let_def if_not_P [OF False])
    with inv3 show ?thesis by simp
  next
    case True
    then have inc: inc by simp
    obtain ns where app: "st_nodes ?st3 = st_nodes ?st2 @ ns"
      using processSymbols_appends by blast
    with inc have app': "st_nodes ?st3 = st_nodes st1 @ ?fn # ns" by simp
    let ?fn' = "?fn\<lparr>n_type := Some ''component'', d_detail := Some ''Source File''\<rparr>"
    have ids: "n_id ` set ((st_nodes ?st3)[length (st_nodes st1) := ?fn']) = n_id ` set (st_nodes ?st3)"
      unfolding app' by (rule image_list_update_same) simp_all
    have eq: "processFile basename sem lbl inc file st
        = ?st3\<lparr>st_nodes := (st_nodes ?st3)[length (st_nodes st1) := ?fn']\<rparr>"
      by (simp only: processFile_unfold [OF r] Let_def if_P [OF True])
    show ?thesis
      unfolding eq using inv3 ids by (simp add: owners_resolve_def)
  qed
qed

lemma processCalls_owner:
  "symbolOwnerMap (processCalls u items st) = symbolOwnerMap st"
  "symbolOwnerMap (processCalls_item u item st) = symbolOwnerMap st"
  by (induction u items st and u item st rule: processCalls_processCalls_item.induct)
     (simp_all add: Let_def)

lemma collectCalls_owner: "symbolOwnerMap (collectCalls file st) = symbolOwnerMap st"
  by (simp add: collectCalls_def processCalls_owner)

lemma fold_collectCalls_fields:
  "symbolOwnerMap (fold collectCalls files st) = symbolOwnerMap st \<and>
   st_nodes (fold collectCalls files st) = st_nodes st"
  by (induction files arbitrary: st) (simp_all add: collectCalls_owner collectCalls_nodes)

lemma fold_processFile_resolve:
  "owners_resolve st \<Longrightarrow> owners_resolve (fold (processFile basename sem lbl inc) files st)"
  by (induction files arbitrary: st) (simp_all add: processFile_resolve)

lemma fold_processFile_owner_dom:
  "dom (symbolOwnerMap st) \<union>
     (\<Union>f\<in>set files. nodeId (uriStr (document f)) ` set (concat (map owned_symbols (symbols f))))
     \<subseteq> dom (symbolOwnerMap (fold (processFile basename sem lbl inc) files st))"
proof (induction files arbitrary: st)
  case Nil
  show ?case by simp
next
  case (Cons f files)
  from processFile_owner_dom [of st f basename sem lbl inc]
    Cons.IH [of "processFile basename sem lbl inc f st"]
  show ?case
    by (simp only: fold_Cons o_apply list.set UN_insert) blast
qed

text \<open>
  What the first pass does secure, for every batch and both modes: the symbols listed by
  \<open>owned_symbols\<close> have an entry in the owner map, and every owner id in the map is the id
  of a node of the returned graph (the id \<open>root-system\<close> is only ever a parent, never an
  owner).
\<close>

lemma owners_assigned_and_resolve:
  "(\<Union>f\<in>set files. nodeId (uriStr (document f)) ` set (concat (map owned_symbols (symbols f))))
     \<subseteq> dom (symbolOwnerMap (graphState basename files semanticMap virtualRootLabel includeFiles)) \<and>
   ran (symbolOwnerMap (graphState basename files semanticMap virtualRootLabel includeFiles))
     \<subseteq> n_id ` set (g_nodes (generateGraph basename outgoing completion files semanticMap
                                  virtualRootLabel includeFiles))"
proof -
  let ?st1 = "fold (processFile basename semanticMap virtualRootLabel includeFiles) files
                (initialGraphState virtualRootLabel)"
  have g: "symbolOwnerMap (graphState basename files semanticMap virtualRootLabel includeFiles)
      = symbolOwnerMap ?st1"
    and n: "g_nodes (generateGraph basename outgoing completion files semanticMap
                       virtualRootLabel includeFiles) = st_nodes ?st1"
    by (simp_all add: graphState_def generateGraph_unfold fold_collectCalls_fields Let_def)
  have init: "owners_resolve (initialGraphState virtualRootLabel)"
    by (simp add: owners_resolve_def initialGraphState_def)
  have "owners_resolve ?st1"
    by (rule fold_processFile_resolve [OF init])
  moreover have "(\<Union>f\<in>set files. nodeId (uriStr (document f)) ` set (concat (map owned_symbols (symbols f))))
      \<subseteq> dom (symbolOwnerMap ?st1)"
    using fold_processFile_owner_dom [of "initialGraphState virtualRootLabel" files] by simp
  ultimately show ?thesis
    unfolding g n by (simp add: owners_resolve_def)
qed

lemma show_nat_small [simp]:
  "show_nat 0 = ''0''" "show_nat 1 = ''1''" "show_nat (Suc 0) = ''1''" "show_nat 2 = ''2''"
  "show_nat 4 = ''4''"
  "show_nat 5 = ''5''" "show_nat 9 = ''9''"
  by (simp_all add: show_nat.simps digit_char_def)

lemmas graph_eval = graphState_def initialGraphState_def processFile_def resolveParent_def
  processSymbols_def processSymbol_def collectCalls_def getNodeId_def setOwner_def nodeId_def
  nodeKey_def truthy_def Let_def ROOT_ID_def

text \<open>
  C1 at the failing input: a file whose one top-level symbol is a namespace that holds a
  function. The second pass of \<open>generateGraph\<close> descends into every symbol and starts a
  call lookup for the function, so the function is an entity that \<open>generateGraph\<close>
  processes; but the first pass handles the top-level list only and skips the namespace, so
  the function has no entry in the owner map, in either mode.
\<close>

theorem nested_entity_without_owner:
  "nodeId ''file:///a.ts'' nested_fn
     \<in> t_id ` set (callsPromises (graphState (\<lambda>p. p) [namespace_file] None None True)) \<and>
   symbolOwnerMap (graphState (\<lambda>p. p) [namespace_file] None None True)
     (nodeId ''file:///a.ts'' nested_fn) = None \<and>
   symbolOwnerMap (graphState (\<lambda>p. p) [namespace_file] None None False)
     (nodeId ''file:///a.ts'' nested_fn) = None"
  by (simp add: graph_eval namespace_file_def nested_fn_def)

theorem flattened_functions_become_components_witness:
  "map s_kind (symbols two_functions) = [Function, Function] \<and>
   truthy (Some ''Backend'') \<and>
   map n_id (filter (\<lambda>n. n_type n = Some ''component'')
     (g_nodes (generateGraph (\<lambda>p. p) (\<lambda>u s. None) (\<lambda>ts. ts) [two_functions] None (Some ''Backend'') False)))
     = [''file:///b.ts::g::0'', ''file:///b.ts::h::4''] \<and>
   map n_parentNode (filter (\<lambda>n. n_type n = Some ''component'')
     (g_nodes (generateGraph (\<lambda>p. p) (\<lambda>u s. None) (\<lambda>ts. ts) [two_functions] None (Some ''Backend'') False)))
     = [Some ''root-system'', Some ''root-system''] \<and>
   ''root-system'' \<in> n_id ` set
     (g_nodes (generateGraph (\<lambda>p. p) (\<lambda>u s. None) (\<lambda>ts. ts) [two_functions] None (Some ''Backend'') False))"
proof -
  have h: "\<forall>s\<in>set (symbols two_functions). s_kind s \<noteq> Class \<and> s_kind s \<noteq> Interface"
    by (simp add: two_functions_def)
  have l: "truthy (Some ''Backend'')"
    by (simp add: truthy_def)
  have two: "\<lparr>document = document two_functions, symbols = symbols two_functions\<rparr> = two_functions"
    by simp
  from flattened_functions_become_components [OF h, of "\<lambda>p. p" "\<lambda>u s. None" "\<lambda>ts. ts"
      "document two_functions" None "Some ''Backend''"] l
  show ?thesis
    unfolding two
    by (simp add: two_functions_def functionlike_def function_node_def nodeId_def container_of_def
        ROOT_ID_def)
qed

text \<open>
  Without a root label and without a module for the file, the components still name
  \<open>root-system\<close> as their parent, and the graph has no node of that id.
\<close>

lemma flattened_without_container:
  "map n_parentNode (g_nodes (generateGraph (\<lambda>p. p) (\<lambda>u s. None) (\<lambda>ts. ts) [two_functions]
                                None None False))
     = [Some ''root-system'', Some ''root-system''] \<and>
   map n_id (g_nodes (generateGraph (\<lambda>p. p) (\<lambda>u s. None) (\<lambda>ts. ts) [two_functions]
                        None None False))
     = [''file:///b.ts::g::0'', ''file:///b.ts::h::4'']"
  by (simp add: two_functions_def flattened_single_file_nodes container_nodes_def container_of_def
      flat_nodes_def classlike_def functionlike_def function_node_def nodeId_def truthy_def
      ROOT_ID_def)

text \<open>
  C8 as stated fails when \<open>N\<close> counts the functions: a top-level variable and a top-level
  constant become component nodes like a function (three nodes for one function and no
  class), and so does a top-level interface (two nodes for one function and no class).
\<close>

theorem variables_and_interfaces_counterexample:
  "map s_kind (symbols mixed_file) = [Function, Variable, Constant] \<and>
   map n_id (filter (\<lambda>n. n_type n = Some ''component'')
     (g_nodes (generateGraph (\<lambda>p. p) (\<lambda>u s. None) (\<lambda>ts. ts) [mixed_file] None (Some ''Backend'') False)))
     = [''file:///m.ts::f::0'', ''file:///m.ts::v::4'', ''file:///m.ts::K::5''] \<and>
   map s_kind (symbols interface_file) = [Interface, Function] \<and>
   map n_id (filter (\<lambda>n. n_type n = Some ''component'')
     (g_nodes (generateGraph (\<lambda>p. p) (\<lambda>u s. None) (\<lambda>ts. ts) [interface_file] None (Some ''Backend'') False)))
     = [''file:///i.ts::I::0'', ''file:///i.ts::f::4'']"
  by (simp add: mixed_file_def interface_file_def flattened_single_file_nodes container_nodes_def
      container_of_def flat_nodes_def classlike_def functionlike_def function_node_def
      class_node_def group_node_def nodeId_def truthy_def ROOT_ID_def)

section \<open>Properties of edge aggregation\<close>

lemma map_of_update_key:
  "map_of (map (\<lambda>(k', m). if k' = k then (k', f m) else (k', m)) em) x
     = (if x = k then map_option f (map_of em k) else map_of em x)"
  by (induction em) auto

lemma map_fst_update_key:
  "map (fst \<circ> (\<lambda>(k', m). if k' = k then (k', f m) else (k', m))) em = map fst em"
  by (induction em) auto

lemma count_call_distinct:
  "distinct (map fst em) \<Longrightarrow> distinct (map fst (count_call k d em))"
  by (auto simp: count_call_def map_fst_update_key map_of_eq_None_iff split: option.splits)

lemma count_call_abs: "edge_abs (count_call k d em) = abs_count (k, d) (edge_abs em)"
proof
  fix x
  show "edge_abs (count_call k d em) x = abs_count (k, d) (edge_abs em) x"
  proof (cases "map_of em k")
    case None
    then show ?thesis
      by (auto simp: edge_abs_def count_call_def abs_count_def map_of_append meta_view_def
          map_add_def split: option.splits)
  next
    case (Some m)
    then show ?thesis
      by (auto simp: edge_abs_def count_call_def abs_count_def map_of_update_key meta_view_def
          add_desc_def insert_absorb)
  qed
qed

lemma abs_count_commute: "abs_count i \<circ> abs_count j = abs_count j \<circ> abs_count i"
  by (rule ext) (auto simp: abs_count_def fun_eq_iff split: option.splits)

lemma fold_count_distinct:
  "distinct (map fst em) \<Longrightarrow> distinct (map fst (fold count_inc incs em))"
  by (induction incs arbitrary: em) (simp_all add: count_inc_def count_call_distinct)

lemma fold_count_abs: "edge_abs (fold count_inc incs em) = fold abs_count incs (edge_abs em)"
  by (induction incs arbitrary: em) (simp_all add: count_inc_def count_call_abs)

lemma add_call_incs:
  "add_call om im src name call em = fold count_inc (call_incs om im src name call) em"
  by (simp add: add_call_def call_incs_def Let_def count_inc_def)

lemma fold_add_call_incs:
  "fold (add_call om im src name) calls em
     = fold count_inc (concat (map (call_incs om im src name) calls)) em"
  by (induction calls arbitrary: em) (simp_all add: add_call_incs)

lemma aggregate_incs:
  "aggregateOutgoingCalls out om im task em = fold count_inc (task_incs out om im task) em"
  by (simp add: aggregateOutgoingCalls_def task_incs_def Let_def fold_add_call_incs
      split: option.splits)

lemma fold_aggregate_incs:
  "fold (aggregateOutgoingCalls out om im) tasks em
     = fold count_inc (concat (map (task_incs out om im) tasks)) em"
  by (induction tasks arbitrary: em) (simp_all add: aggregate_incs)

lemma mset_concat_map_cong:
  "mset xs = mset ys \<Longrightarrow> mset (concat (map f xs)) = mset (concat (map f ys))"
proof -
  assume eq: "mset xs = mset ys"
  have "mset (concat (map f zs)) = sum_mset (image_mset (\<lambda>z. mset (f z)) (mset zs))" for zs
    by (induction zs) simp_all
  with eq show ?thesis by simp
qed

lemma fold_abs_count_mset:
  "mset incs = mset incs' \<Longrightarrow> fold abs_count incs = fold abs_count incs'"
  by (rule fold_multiset_equiv) (simp_all add: abs_count_commute)

lemma entry_view_abs:
  "distinct (map fst em) \<Longrightarrow>
     map entry_view em = map (\<lambda>k. (k, the (edge_abs em k))) (map fst em)"
  by (induction em) (auto simp: entry_view_def edge_abs_def rev_image_eqI)

lemma mset_entries_abs:
  assumes d1: "distinct (map fst em1)" and d2: "distinct (map fst em2)"
    and eq: "edge_abs em1 = edge_abs em2"
  shows "mset (map entry_view em1) = mset (map entry_view em2)"
proof -
  have dom: "set (map fst em) = dom (edge_abs em)" for em
    by (simp add: edge_abs_def dom_map_option dom_map_of_conv_image_fst)
  have "mset (map fst em1) = mset_set (dom (edge_abs em1))"
    using d1 by (simp only: dom [symmetric] mset_set_set)
  also have "\<dots> = mset (map fst em2)"
    using d2 by (simp only: eq dom [symmetric] mset_set_set)
  finally have keys: "mset (map fst em1) = mset (map fst em2)" .
  have "mset (map entry_view em1) = image_mset (\<lambda>k. (k, the (edge_abs em1 k))) (mset (map fst em1))"
    by (simp only: entry_view_abs [OF d1] mset_map)
  also have "\<dots> = image_mset (\<lambda>k. (k, the (edge_abs em2 k))) (mset (map fst em2))"
    by (simp only: keys eq)
  also have "\<dots> = mset (map entry_view em2)"
    by (simp only: entry_view_abs [OF d2] mset_map)
  finally show ?thesis .
qed

lemma edge_view_edge_of: "map edge_view (edge_of entry) = view_edges (entry_view entry)"
  by (simp add: edge_of_def view_edges_def entry_view_def meta_view_def edge_view_def
      split: list.splits)

lemma mset_edges_entries:
  "mset (map edge_view (concat (map edge_of em)))
     = sum_mset (image_mset (\<lambda>v. mset (view_edges v)) (mset (map entry_view em)))"
  by (induction em) (simp_all add: edge_view_edge_of)

text \<open>
  A call that no other call overlaps: for an unchanged batch and unchanged call-hierarchy
  answers, the graph does not depend on the order in which the concurrent lookups complete.
  The node list is the same, and the edges are the same as a multiset (each edge with its
  id, source, target, label and set of call descriptions).
\<close>

lemma graph_independent_of_completion_order:
  assumes c1: "\<And>ts. mset (completion1 ts) = mset ts"
    and c2: "\<And>ts. mset (completion2 ts) = mset ts"
  shows "g_nodes (generateGraph basename outgoing completion1 files semanticMap virtualRootLabel includeFiles)
       = g_nodes (generateGraph basename outgoing completion2 files semanticMap virtualRootLabel includeFiles) \<and>
     mset (map edge_view
       (g_edges (generateGraph basename outgoing completion1 files semanticMap virtualRootLabel includeFiles)))
       = mset (map edge_view
       (g_edges (generateGraph basename outgoing completion2 files semanticMap virtualRootLabel includeFiles)))"
proof -
  let ?st = "graphState basename files semanticMap virtualRootLabel includeFiles"
  let ?incs = "\<lambda>c. concat (map (task_incs outgoing (symbolOwnerMap ?st) (nodeIdMap ?st))
                            (c (callsPromises ?st)))"
  have em: "aggregateEdges outgoing c ?st = fold count_inc (?incs c) []" for c
    by (simp add: aggregateEdges_unfold fold_aggregate_incs)
  have "mset (completion1 (callsPromises ?st)) = mset (completion2 (callsPromises ?st))"
    by (simp add: c1 c2)
  then have "mset (?incs completion1) = mset (?incs completion2)"
    by (rule mset_concat_map_cong)
  then have "fold abs_count (?incs completion1) = fold abs_count (?incs completion2)"
    by (rule fold_abs_count_mset)
  then have abs: "edge_abs (aggregateEdges outgoing completion1 ?st)
      = edge_abs (aggregateEdges outgoing completion2 ?st)"
    by (simp add: em fold_count_abs)
  have d: "distinct (map fst (aggregateEdges outgoing c ?st))" for c
    unfolding em by (rule fold_count_distinct) simp
  have "mset (map entry_view (aggregateEdges outgoing completion1 ?st))
      = mset (map entry_view (aggregateEdges outgoing completion2 ?st))"
    by (rule mset_entries_abs [OF d d abs])
  then show ?thesis
    by (simp add: generateGraph_unfold Let_def mset_edges_entries del: mset_map)
qed

lemmas edge_eval = generateGraph_unfold aggregateEdges_unfold aggregateOutgoingCalls_def add_call_def
  count_call_def add_desc_def edge_of_def processCalls.simps processCalls_item.simps

lemma split_on_no_sep: "c \<notin> set s \<Longrightarrow> split_on c s = [s]"
  by (induction s) auto

lemma split_on_sep:
  "c \<notin> set s \<Longrightarrow> split_on c (s @ c # t) = s # split_on c t"
  by (induction s) (auto split: list.splits)

lemma split_on_pair:
  "c \<notin> set s \<Longrightarrow> c \<notin> set t \<Longrightarrow> split_on c (s @ c # t) = [s, t]"
  by (simp add: split_on_sep split_on_no_sep)

lemma split_on_nonempty: "split_on c s \<noteq> []"
  by (induction s) (auto split: list.splits)

lemma split_on_two_parts: "\<exists>a b rest. split_on c (s @ c # t) = a # b # rest"
proof (induction s)
  case Nil
  obtain b rest where "split_on c t = b # rest"
    using split_on_nonempty [of c t] by (cases "split_on c t") auto
  then show ?case by simp
next
  case (Cons x s)
  then show ?case by (auto split: list.splits)
qed

text \<open>What the fold of \<open>abs_count\<close> computes: per key, the number of increments and the
  set of their descriptions.\<close>

lemma abs_count_apply:
  "abs_count kd m k =
     (if k = fst kd
      then Some (case m (fst kd) of None \<Rightarrow> (1, {snd kd}) | Some (c, ds) \<Rightarrow> (c + 1, insert (snd kd) ds))
      else m k)"
  by (simp add: abs_count_def)

lemma fold_abs_count_value:
  "fold abs_count incs Map.empty k =
     (if k \<in> fst ` set incs
      then Some (length (filter (\<lambda>i. fst i = k) incs), snd ` {i \<in> set incs. fst i = k})
      else None)"
proof (induction incs rule: rev_induct)
  case Nil
  show ?case by simp
next
  case (snoc x xs)
  define m where "m = fold abs_count xs Map.empty"
  have step: "fold abs_count (xs @ [x]) Map.empty k = abs_count x m k"
    by (simp add: m_def)
  have IH: "m k = (if k \<in> fst ` set xs
      then Some (length (filter (\<lambda>i. fst i = k) xs), snd ` {i \<in> set xs. fst i = k})
      else None)"
    unfolding m_def by (rule snoc.IH)
  show ?case
  proof (cases "k = fst x")
    case False
    then have "{i \<in> set (xs @ [x]). fst i = k} = {i \<in> set xs. fst i = k}"
      and "k \<in> fst ` set (xs @ [x]) \<longleftrightarrow> k \<in> fst ` set xs"
      and "abs_count x m k = m k"
      by (auto simp: abs_count_apply)
    with False show ?thesis
      by (simp only: step IH filter_append) simp
  next
    case True
    have sets: "snd ` {i \<in> set (xs @ [x]). fst i = k} = insert (snd x) (snd ` {i \<in> set xs. fst i = k})"
      using True by auto
    have mem: "k \<in> fst ` set (xs @ [x])" using True by simp
    have len: "length (filter (\<lambda>i. fst i = k) (xs @ [x])) = length (filter (\<lambda>i. fst i = k) xs) + 1"
      using True by simp
    have val: "abs_count x m k = Some (case m k of None \<Rightarrow> (1, {snd x})
                                        | Some (c, ds) \<Rightarrow> (c + 1, insert (snd x) ds))"
      using True by (simp add: abs_count_apply)
    show ?thesis
    proof (cases "k \<in> fst ` set xs")
      case in_xs: True
      then have "m k = Some (length (filter (\<lambda>i. fst i = k) xs), snd ` {i \<in> set xs. fst i = k})"
        by (simp add: IH)
      then show ?thesis
        by (simp only: step val sets mem len if_True) simp
    next
      case not_in: False
      then have "filter (\<lambda>i. fst i = k) xs = []" and "{i \<in> set xs. fst i = k} = {}"
        and "m k = None"
        by (force simp: filter_empty_conv IH)+
      then show ?thesis
        by (simp only: step val sets mem len if_True) simp
    qed
  qed
qed

lemma count_call_calls_distinct:
  "\<forall>e\<in>set em. distinct (em_calls (snd e)) \<Longrightarrow>
     \<forall>e\<in>set (count_call k d em). distinct (em_calls (snd e))"
  by (auto simp: count_call_def add_desc_def split: option.splits if_splits)

lemma fold_count_calls_distinct:
  "\<forall>e\<in>set em. distinct (em_calls (snd e)) \<Longrightarrow>
     \<forall>e\<in>set (fold count_inc incs em). distinct (em_calls (snd e))"
proof (induction incs arbitrary: em)
  case Nil
  then show ?case by simp
next
  case (Cons i incs)
  from count_call_calls_distinct [OF Cons.prems, of "fst i" "snd i"]
  have "\<forall>e\<in>set (count_inc i em). distinct (em_calls (snd e))"
    by (simp add: count_inc_def)
  from Cons.IH [OF this] show ?case by simp
qed

lemma truthy_Some: "truthy v \<Longrightarrow> \<exists>x. v = Some x \<and> x \<noteq> []"
  by (cases v) (simp_all add: truthy_def)

lemma call_incs_key:
  "i \<in> set (call_incs om im src name call) \<Longrightarrow>
     \<exists>t. fst i = src @ ''|'' @ t \<and> t \<in> ran om \<and> src \<noteq> t"
  by (auto simp: call_incs_def Let_def ran_def dest!: truthy_Some split: if_splits)

lemma task_incs_key:
  "i \<in> set (task_incs out om im task) \<Longrightarrow>
     \<exists>s t. fst i = s @ ''|'' @ t \<and> s \<in> ran om \<and> t \<in> ran om \<and> s \<noteq> t"
proof -
  assume i: "i \<in> set (task_incs out om im task)"
  then have own: "truthy (om (t_id task))"
    by (auto simp: task_incs_def split: if_splits)
  then obtain s where s: "om (t_id task) = Some s"
    using truthy_Some by blast
  then have "s \<in> ran om" by (rule ranI)
  moreover from i s obtain call where "i \<in> set (call_incs om im s (s_name (t_symbol task)) call)"
    by (auto simp: task_incs_def split: if_splits option.splits)
  ultimately show ?thesis
    using call_incs_key by blast
qed

lemma distinct_map_comp: "distinct (map (\<lambda>x. f (g x)) xs) \<Longrightarrow> distinct (map g xs)"
  by (induction xs) auto

text \<open>
  The edge map after all lookups, whatever their completion order: one entry per key that
  some resolved call between different owners produced; the entry's count is the number of
  those calls and its descriptions are their distinct descriptions.
\<close>

lemma edge_map_counts_calls:
  fixes outgoing :: "string \<Rightarrow> DocumentSymbol \<Rightarrow> OutgoingCall list option"
  assumes perm: "mset (completion (callsPromises st)) = mset (callsPromises st)"
  defines "incs \<equiv> concat (map (task_incs outgoing (symbolOwnerMap st) (nodeIdMap st)) (callsPromises st))"
  shows "distinct (map fst (aggregateEdges outgoing completion st))"
    and "fst ` set (aggregateEdges outgoing completion st) = fst ` set incs"
    and "(k, m) \<in> set (aggregateEdges outgoing completion st) \<Longrightarrow>
           em_count m = length (filter (\<lambda>i. fst i = k) incs) \<and>
           set (em_calls m) = snd ` {i \<in> set incs. fst i = k} \<and>
           distinct (em_calls m)"
proof -
  let ?em = "aggregateEdges outgoing completion st"
  let ?incs' = "concat (map (task_incs outgoing (symbolOwnerMap st) (nodeIdMap st))
                  (completion (callsPromises st)))"
  have em: "?em = fold count_inc ?incs' []"
    by (simp add: aggregateEdges_unfold fold_aggregate_incs)
  have "mset ?incs' = mset incs"
    unfolding incs_def by (rule mset_concat_map_cong [OF perm])
  then have "fold abs_count ?incs' = fold abs_count incs"
    by (rule fold_abs_count_mset)
  moreover have "edge_abs [] = Map.empty"
    by (simp add: edge_abs_def)
  ultimately have abs: "edge_abs ?em = fold abs_count incs Map.empty"
    by (simp only: em fold_count_abs)
  show d: "distinct (map fst ?em)"
    unfolding em by (rule fold_count_distinct) simp
  have "dom (edge_abs ?em) = fst ` set ?em"
    by (simp add: edge_abs_def dom_map_option dom_map_of_conv_image_fst)
  moreover have "dom (fold abs_count incs Map.empty) = fst ` set incs"
    by (auto simp: dom_def fold_abs_count_value split: if_splits)
  ultimately show "fst ` set ?em = fst ` set incs"
    by (simp add: abs)
  assume km: "(k, m) \<in> set ?em"
  with d have "map_of ?em k = Some m" by simp
  then have "edge_abs ?em k = Some (meta_view m)"
    by (simp add: edge_abs_def)
  then have v: "em_count m = length (filter (\<lambda>i. fst i = k) incs) \<and>
      set (em_calls m) = snd ` {i \<in> set incs. fst i = k}"
    by (simp add: abs fold_abs_count_value meta_view_def split: if_splits)
  have "\<forall>e\<in>set ?em. distinct (em_calls (snd e))"
    unfolding em by (rule fold_count_calls_distinct) simp
  with km have "distinct (em_calls m)" by force
  with v show "em_count m = length (filter (\<lambda>i. fst i = k) incs) \<and>
           set (em_calls m) = snd ` {i \<in> set incs. fst i = k} \<and>
           distinct (em_calls m)"
    by simp
qed

text \<open>
  When no owner id contains the separator, every entry of the edge map becomes exactly one
  edge between its two owners, and no two edges share an ordered pair.
\<close>

lemma edges_without_separator:
  assumes perm: "mset (completion (callsPromises (graphState basename files semanticMap virtualRootLabel includeFiles)))
      = mset (callsPromises (graphState basename files semanticMap virtualRootLabel includeFiles))"
    and nosep: "\<forall>ow\<in>ran (symbolOwnerMap (graphState basename files semanticMap virtualRootLabel includeFiles)).
      CHR ''|'' \<notin> set ow"
  shows "map (\<lambda>e. e_source e @ ''|'' @ e_target e)
           (g_edges (generateGraph basename outgoing completion files semanticMap virtualRootLabel includeFiles))
         = map fst (aggregateEdges outgoing completion
                      (graphState basename files semanticMap virtualRootLabel includeFiles))"
    and "distinct (map (\<lambda>e. (e_source e, e_target e))
           (g_edges (generateGraph basename outgoing completion files semanticMap virtualRootLabel includeFiles)))"
    and "e \<in> set (g_edges (generateGraph basename outgoing completion files semanticMap virtualRootLabel includeFiles))
           \<Longrightarrow> e_source e \<noteq> e_target e"
proof -
  let ?st = "graphState basename files semanticMap virtualRootLabel includeFiles"
  let ?em = "aggregateEdges outgoing completion ?st"
  let ?G = "generateGraph basename outgoing completion files semanticMap virtualRootLabel includeFiles"
  have g: "g_edges ?G = concat (map edge_of ?em)"
    by (simp add: generateGraph_unfold Let_def)
  have key: "\<exists>s t. fst entry = s @ ''|'' @ t \<and> CHR ''|'' \<notin> set s \<and> CHR ''|'' \<notin> set t \<and> s \<noteq> t"
    if "entry \<in> set ?em" for entry
  proof -
    from that have "fst entry \<in> fst ` set ?em" by simp
    then obtain i task where "i \<in> set (task_incs outgoing (symbolOwnerMap ?st) (nodeIdMap ?st) task)"
      and "fst i = fst entry"
      unfolding edge_map_counts_calls(2) [where completion = completion and st = "?st"
          and outgoing = outgoing, OF perm] by auto
    with task_incs_key [of i outgoing "symbolOwnerMap ?st" "nodeIdMap ?st" task] nosep
    show ?thesis by metis
  qed
  have one: "\<exists>e. edge_of entry = [e] \<and> e_source e @ ''|'' @ e_target e = fst entry \<and>
      e_source e \<noteq> e_target e"
    if "entry \<in> set ?em" for entry
  proof -
    from key [OF that] obtain s t where k: "fst entry = s @ ''|'' @ t"
      and s: "CHR ''|'' \<notin> set s" and t: "CHR ''|'' \<notin> set t" and ne: "s \<noteq> t"
      by blast
    have "split_on CHR ''|'' (fst entry) = [s, t]"
      using split_on_pair [OF s t] by (simp add: k)
    with ne k show ?thesis
      by (simp add: edge_of_def)
  qed
  have keys: "map (\<lambda>e. e_source e @ ''|'' @ e_target e) (concat (map edge_of em)) = map fst em"
    if "set em \<subseteq> set ?em" for em
    using that
  proof (induction em)
    case Nil
    show ?case by simp
  next
    case (Cons entry em)
    then obtain e where "edge_of entry = [e]" "e_source e @ ''|'' @ e_target e = fst entry"
      using one [of entry] by auto
    with Cons show ?case by simp
  qed
  show k: "map (\<lambda>e. e_source e @ ''|'' @ e_target e) (g_edges ?G) = map fst ?em"
    unfolding g by (rule keys) simp
  have "distinct (map (\<lambda>e. e_source e @ ''|'' @ e_target e) (g_edges ?G))"
    unfolding k by (rule edge_map_counts_calls(1) [where completion = completion and st = "?st"
          and outgoing = outgoing, OF perm])
  then have "distinct (map (\<lambda>e. (\<lambda>p. fst p @ ''|'' @ snd p) (e_source e, e_target e)) (g_edges ?G))"
    by simp
  then show "distinct (map (\<lambda>e. (e_source e, e_target e)) (g_edges ?G))"
    by (rule distinct_map_comp)
  assume "e \<in> set (g_edges ?G)"
  then obtain entry where "entry \<in> set ?em" "e \<in> set (edge_of entry)"
    unfolding g by auto
  with one [of entry] show "e_source e \<noteq> e_target e"
    by auto
qed

text \<open>
  C2 at the failing input. In flattened mode the function \<open>operator|\<close> owns itself, and it
  calls \<open>g\<close> and \<open>h\<close>. The edge map has one entry per pair of owners, but splitting the keys
  at \<open>|\<close> cuts inside the owner id: both entries become an edge from \<open>file:///x.cpp::operator\<close>
  to \<open>::1\<close>. The graph has two edges with the same source, target and id, their ends are
  no nodes of the graph, and the two pairs of owners that have a call have no edge.
\<close>

theorem separator_in_owner_id_merges_edges:
  "symbolOwnerMap (graphState (\<lambda>p. p) [operator_file] None (Some ''Math'') False)
     ''file:///x.cpp::operator|::1'' = Some ''file:///x.cpp::operator|::1'' \<and>
   symbolOwnerMap (graphState (\<lambda>p. p) [operator_file] None (Some ''Math'') False)
     ''file:///x.cpp::g::5'' = Some ''file:///x.cpp::g::5'' \<and>
   symbolOwnerMap (graphState (\<lambda>p. p) [operator_file] None (Some ''Math'') False)
     ''file:///x.cpp::h::9'' = Some ''file:///x.cpp::h::9'' \<and>
   map fst (aggregateEdges operator_calls (\<lambda>ts. ts)
              (graphState (\<lambda>p. p) [operator_file] None (Some ''Math'') False))
     = [''file:///x.cpp::operator|::1|file:///x.cpp::g::5'',
        ''file:///x.cpp::operator|::1|file:///x.cpp::h::9''] \<and>
   map (\<lambda>e. (e_source e, e_target e))
     (g_edges (generateGraph (\<lambda>p. p) operator_calls (\<lambda>ts. ts) [operator_file] None (Some ''Math'') False))
     = [(''file:///x.cpp::operator'', ''::1''), (''file:///x.cpp::operator'', ''::1'')] \<and>
   map e_id
     (g_edges (generateGraph (\<lambda>p. p) operator_calls (\<lambda>ts. ts) [operator_file] None (Some ''Math'') False))
     = [''e-file:///x.cpp::operator-::1'', ''e-file:///x.cpp::operator-::1''] \<and>
   map n_id
     (g_nodes (generateGraph (\<lambda>p. p) operator_calls (\<lambda>ts. ts) [operator_file] None (Some ''Math'') False))
     = [''root-system'', ''file:///x.cpp::operator|::1'', ''file:///x.cpp::g::5'',
        ''file:///x.cpp::h::9'']"
  by (simp add: graph_eval edge_eval operator_file_def operator_calls_def group_node_def
      function_node_def)

lemma completion_order_example:
  "map e_id (g_edges (generateGraph (\<lambda>p. p) mutual_calls (\<lambda>ts. ts) [two_functions] None None False))
     = [''e-file:///b.ts::g::0-file:///b.ts::h::4'', ''e-file:///b.ts::h::4-file:///b.ts::g::0''] \<and>
   map e_id (g_edges (generateGraph (\<lambda>p. p) mutual_calls rev [two_functions] None None False))
     = [''e-file:///b.ts::h::4-file:///b.ts::g::0'', ''e-file:///b.ts::g::0-file:///b.ts::h::4''] \<and>
   mset (map edge_view
     (g_edges (generateGraph (\<lambda>p. p) mutual_calls (\<lambda>ts. ts) [two_functions] None None False)))
     = mset (map edge_view
     (g_edges (generateGraph (\<lambda>p. p) mutual_calls rev [two_functions] None None False)))"
proof -
  have h1: "mset ((\<lambda>ts. ts) ts) = mset ts" for ts :: "CallTask list" by simp
  have h2: "mset (rev ts) = mset ts" for ts :: "CallTask list" by simp
  have a: "map e_id (g_edges (generateGraph (\<lambda>p. p) mutual_calls (\<lambda>ts. ts) [two_functions] None None False))
     = [''e-file:///b.ts::g::0-file:///b.ts::h::4'', ''e-file:///b.ts::h::4-file:///b.ts::g::0'']"
    by (simp add: graph_eval edge_eval two_functions_def mutual_calls_def)
  have b: "map e_id (g_edges (generateGraph (\<lambda>p. p) mutual_calls rev [two_functions] None None False))
     = [''e-file:///b.ts::h::4-file:///b.ts::g::0'', ''e-file:///b.ts::g::0-file:///b.ts::h::4'']"
    by (simp add: graph_eval edge_eval two_functions_def mutual_calls_def)
  from graph_independent_of_completion_order [of "\<lambda>ts. ts" rev "\<lambda>p. p" mutual_calls
      "[two_functions]" None None False, OF h1 h2] a b
  show ?thesis by blast
qed

text \<open>
  C9 at the failing input. The graph of the file \<open>b.ts\<close> (functions \<open>g\<close> and \<open>h\<close> that call
  each other) is assembled twice with the same call-hierarchy answers. The first call runs
  alone and returns the two edges between \<open>g\<close> and \<open>h\<close>. During the second, before its
  lookups complete, another call of \<open>generateGraph\<close> starts on the same service for the
  batch of \<open>x.cpp\<close>; it clears the shared reverse index and fills it with its own entries,
  the targets of the calls in \<open>b.ts\<close> are no longer found, and the second call returns the
  same nodes and no edge.
\<close>

theorem overlapping_call_changes_edges:
  "map e_id (g_edges (generateGraph (\<lambda>p. p) mutual_calls (\<lambda>ts. ts) [two_functions]
                        None (Some ''Flow'') False))
     = [''e-file:///b.ts::g::0-file:///b.ts::h::4'', ''e-file:///b.ts::h::4-file:///b.ts::g::0''] \<and>
   g_edges (generateGraph_shared (\<lambda>p. p) mutual_calls (\<lambda>ts. ts)
              (\<lambda>task. nodeIdMap (graphState (\<lambda>p. p) [operator_file] (Some Map.empty) None False))
              [two_functions] None (Some ''Flow'') False)
     = [] \<and>
   g_nodes (generateGraph_shared (\<lambda>p. p) mutual_calls (\<lambda>ts. ts)
              (\<lambda>task. nodeIdMap (graphState (\<lambda>p. p) [operator_file] (Some Map.empty) None False))
              [two_functions] None (Some ''Flow'') False)
     = g_nodes (generateGraph (\<lambda>p. p) mutual_calls (\<lambda>ts. ts) [two_functions]
                  None (Some ''Flow'') False) \<and>
   map n_id (g_nodes (generateGraph (\<lambda>p. p) mutual_calls (\<lambda>ts. ts) [two_functions]
                        None (Some ''Flow'') False))
     = [''root-system'', ''file:///b.ts::g::0'', ''file:///b.ts::h::4'']"
  by (simp add: graph_eval edge_eval generateGraph_shared_def aggregateEdges_shared_def
      two_functions_def operator_file_def mutual_calls_def group_node_def function_node_def)

end
